theory Spec2Isabelle
  imports Complex_Main
begin

section \<open>Values and strings of the source language\<close>

text \<open>
  The program is JavaScript. A string is modelled as a \<^typ>\<open>string\<close>: a list of code units
  below 256, read as Latin-1. A number is modelled by a rational: \<open>parseInt\<close> and \<open>parseFloat\<close>
  give the exact value of the decimal text, where JavaScript rounds it to the nearest double.
  The rounding is monotone and leaves the bounds 0, 5, 90 and 180 in place, so it changes
  the outcome of a range check only for a text whose value lies within half a unit in the last
  place of a bound. \<open>JNull\<close> stands for both \<open>null\<close> and \<open>undefined\<close>, which no function below
  tells apart.
\<close>

datatype jsval = JNull | JStr string | JNum rat

datatype error = TypeError

text \<open>Truthiness of a value (\<open>!x\<close> is its negation).\<close>

fun truthy :: "jsval \<Rightarrow> bool" where
  "truthy JNull = False"
| "truthy (JStr s) = (s \<noteq> [])"
| "truthy (JNum n) = (n \<noteq> 0)"

text \<open>A nullable string field is truthy when it is a non-empty string.\<close>

fun truthyStr :: "string option \<Rightarrow> bool" where
  "truthyStr None = False"
| "truthyStr (Some s) = (s \<noteq> [])"

subsection \<open>Character classes of the regular expressions\<close>

definition isDigit :: "char \<Rightarrow> bool" where
  \<comment> \<open>\<open>\d\<close>\<close>
  "isDigit c \<longleftrightarrow> c \<in> set ''0123456789''"

definition isUpper :: "char \<Rightarrow> bool" where
  \<comment> \<open>\<open>[A-Z]\<close>\<close>
  "isUpper c \<longleftrightarrow> c \<in> set ''ABCDEFGHIJKLMNOPQRSTUVWXYZ''"

definition isLower :: "char \<Rightarrow> bool" where
  \<comment> \<open>\<open>[a-z]\<close>\<close>
  "isLower c \<longleftrightarrow> c \<in> set ''abcdefghijklmnopqrstuvwxyz''"

definition isAlpha :: "char \<Rightarrow> bool" where
  \<comment> \<open>\<open>[a-zA-Z]\<close>\<close>
  "isAlpha c \<longleftrightarrow> isLower c \<or> isUpper c"

definition isSpace :: "char \<Rightarrow> bool" where
  \<comment> \<open>\<open>\s\<close>, and what \<open>trim\<close> strips: tab, LF, VT, FF, CR, space, NBSP\<close>
  "isSpace c \<longleftrightarrow> (of_char c :: nat) \<in> {9, 10, 11, 12, 13, 32, 160}"

definition isLineTerminator :: "char \<Rightarrow> bool" where
  \<comment> \<open>what \<open>.\<close> does not match\<close>
  "isLineTerminator c \<longleftrightarrow> (of_char c :: nat) \<in> {10, 13}"

definition digitVal :: "char \<Rightarrow> nat" where
  "digitVal c = of_char c - 48"

definition toLowerChar :: "char \<Rightarrow> char" where
  \<comment> \<open>\<open>toLowerCase\<close> on one Latin-1 code unit\<close>
  "toLowerChar c =
     (let n = (of_char c :: nat)
      in if (65 \<le> n \<and> n \<le> 90) \<or> (192 \<le> n \<and> n \<le> 222 \<and> n \<noteq> 215)
         then char_of (n + 32) else c)"

definition toLowerCase :: "string \<Rightarrow> string" where
  "toLowerCase s = map toLowerChar s"

subsection \<open>String methods\<close>

definition trim :: "string \<Rightarrow> string" where
  "trim s = rev (dropWhile isSpace (rev (dropWhile isSpace s)))"

fun startsWith :: "string \<Rightarrow> string \<Rightarrow> bool" where
  "startsWith s [] = True"
| "startsWith [] (p # ps) = False"
| "startsWith (c # cs) (p # ps) = (c = p \<and> startsWith cs ps)"

fun includesStr :: "string \<Rightarrow> string \<Rightarrow> bool" where
  \<comment> \<open>\<open>s.includes(d)\<close>\<close>
  "includesStr [] d = (d = [])"
| "includesStr (c # cs) d = (startsWith (c # cs) d \<or> includesStr cs d)"

text \<open>\<open>s.split(',')\<close>: the pieces between commas; the empty string gives one empty piece.\<close>

fun split_comma :: "string \<Rightarrow> string list" where
  "split_comma [] = [[]]"
| "split_comma (c # cs) =
     (if c = CHR '','' then [] # split_comma cs
      else (case split_comma cs of [] \<Rightarrow> [[c]] | p # ps \<Rightarrow> (c # p) # ps))"

text \<open>\<open>parseInt(ds, 10)\<close> on a string of digits; \<open>None\<close> is \<open>NaN\<close> (no leading digit).\<close>

definition digitsValue :: "string \<Rightarrow> nat" where
  "digitsValue ds = foldl (\<lambda>n c. 10 * n + digitVal c) 0 ds"

definition parseInt :: "string \<Rightarrow> nat option" where
  "parseInt s = (let ds = takeWhile isDigit s in if ds = [] then None else Some (digitsValue ds))"

text \<open>
  \<open>parseFloat\<close> on a text of the shape \<open>-?\d+(\.\d*)?\<close>, the only shape it is given here:
  an optional sign, the integer digits, and the digits after the point.
\<close>

definition parseFloat :: "string \<Rightarrow> rat" where
  "parseFloat s =
     (let neg = (s \<noteq> [] \<and> hd s = CHR ''-'');
          body = (if neg then tl s else s);
          ip = takeWhile isDigit body;
          rest = drop (length ip) body;
          fp = (if rest \<noteq> [] \<and> hd rest = CHR ''.'' then takeWhile isDigit (tl rest) else []);
          v = of_nat (digitsValue ip) + of_nat (digitsValue fp) / 10 ^ length fp
      in if neg then - v else v)"

text \<open>\<open>s.match(/\d+/g)\<close>: every maximal run of digits, left to right.\<close>

function matchDigitGroups :: "string \<Rightarrow> string list" where
  "matchDigitGroups [] = []"
| "matchDigitGroups (c # cs) =
     (if isDigit c
      then (c # takeWhile isDigit cs) # matchDigitGroups (dropWhile isDigit cs)
      else matchDigitGroups cs)"
  by pat_completeness auto
termination
  by (relation "measure length") (auto simp: less_Suc_eq_le length_dropWhile_le)

section \<open>Field parsers (\<open>utils/validation.js\<close>)\<close>

subsection \<open>\<open>cleanString\<close> and \<open>cleanPhone\<close>\<close>

text \<open>\<open>s.replace(/\s+/g, ' ')\<close>: every maximal run of white space becomes one space.\<close>

function collapseSpaces :: "string \<Rightarrow> string" where
  "collapseSpaces [] = []"
| "collapseSpaces (c # cs) =
     (if isSpace c then CHR '' '' # collapseSpaces (dropWhile isSpace cs)
      else c # collapseSpaces cs)"
  by pat_completeness auto
termination
  by (relation "measure length") (auto simp: less_Suc_eq_le length_dropWhile_le)

text \<open>\<open>x || null\<close> on a string.\<close>

definition orNull :: "string \<Rightarrow> string option" where
  "orNull s = (if s = [] then None else Some s)"

definition cleanString :: "jsval \<Rightarrow> string option" where
  "cleanString str =
     (case str of
        JStr s \<Rightarrow> if s = [] then None else orNull (collapseSpaces (trim s))
      | _ \<Rightarrow> None)"

text \<open>A nullable string passed where the source takes any value.\<close>

fun jsOfStr :: "string option \<Rightarrow> jsval" where
  "jsOfStr None = JNull"
| "jsOfStr (Some s) = JStr s"

definition cleanPhone :: "string option \<Rightarrow> string option" where
  "cleanPhone phone =
     (case phone of
        None \<Rightarrow> None
      | Some p \<Rightarrow>
          if p = [] then None
          else (let cleaned = filter (\<lambda>c. isDigit c \<or> c = CHR ''+'') p;
                    cleaned = (if \<not> startsWith cleaned ''+'' \<and> length cleaned = 10
                               then ''+1'' @ cleaned else cleaned)
                in orNull cleaned))"

subsection \<open>\<open>validateEmail\<close>\<close>

text \<open>
  The blacklist is read from \<open>config/email-blacklist.json\<close>, which is configuration: it is a
  parameter here. A pattern is given by the test of its \<open>RegExp\<close>.
\<close>

record blacklist =
  domains :: "string list"
  patterns :: "(string \<Rightarrow> bool) list"

definition isLocalChar :: "char \<Rightarrow> bool" where
  \<comment> \<open>\<open>[a-zA-Z0-9._%+-]\<close>\<close>
  "isLocalChar c \<longleftrightarrow> isAlpha c \<or> isDigit c \<or> c \<in> set ''._%+-''"

definition isDomainChar :: "char \<Rightarrow> bool" where
  \<comment> \<open>\<open>[a-zA-Z0-9.-]\<close>\<close>
  "isDomainChar c \<longleftrightarrow> isAlpha c \<or> isDigit c \<or> c \<in> set ''.-''"

text \<open>
  \<open>/^[a-zA-Z0-9._%+-]+@[a-zA-Z0-9.-]+\.[a-zA-Z]{2,}$/.test(s)\<close>. Neither class holds \<open>@\<close>,
  so the local part is the run before the first \<open>@\<close>; the last class holds no point, so the
  top-level part is what follows the last point.
\<close>

definition emailRegexTest :: "string \<Rightarrow> bool" where
  "emailRegexTest s =
     (let localPart = takeWhile isLocalChar s in
      localPart \<noteq> [] \<and>
      (case drop (length localPart) s of
         [] \<Rightarrow> False
       | c # host \<Rightarrow>
           c = CHR ''@'' \<and>
           (let tld = rev (takeWhile (\<lambda>c. c \<noteq> CHR ''.'') (rev host));
                dom = take (length host - length tld - 1) host
            in length tld < length host \<and> dom \<noteq> [] \<and> list_all isDomainChar dom
               \<and> 2 \<le> length tld \<and> list_all isAlpha tld)))"

definition validateEmail :: "blacklist \<Rightarrow> string \<Rightarrow> string option" where
  "validateEmail bl email =
     (if email = [] then None
      else (let trimmed = toLowerCase (trim email) in
            if list_ex (\<lambda>domain. includesStr trimmed domain) (domains bl) then None
            else if list_ex (\<lambda>pattern. pattern trimmed) (patterns bl) then None
            else if emailRegexTest trimmed then Some trimmed else None))"

subsection \<open>\<open>validateUrl\<close>\<close>

text \<open>
  \<open>new URL(url)\<close> is the platform's parser: a parameter, \<open>None\<close> where it throws.
\<close>

record URL =
  protocol :: string
  href :: string

definition validateUrl :: "(string \<Rightarrow> URL option) \<Rightarrow> string option \<Rightarrow> string option" where
  "validateUrl newURL url =
     (case url of
        None \<Rightarrow> None
      | Some u \<Rightarrow>
          if u = [] then None
          else (case newURL u of
                  None \<Rightarrow> None
                | Some parsed \<Rightarrow>
                    if protocol parsed \<noteq> ''http:'' \<and> protocol parsed \<noteq> ''https:'' then None
                    else Some (href parsed)))"

subsection \<open>\<open>parseRating\<close> and \<open>parseReviewCount\<close>\<close>

text \<open>
  \<open>text.match(/(\d+\.?\d*)/)\<close>, group 1: the first run of digits, a point if one follows,
  and the digits after it.
\<close>

fun matchRatingNumber :: "string \<Rightarrow> string option" where
  "matchRatingNumber [] = None"
| "matchRatingNumber (c # cs) =
     (if isDigit c
      then (let ip = c # takeWhile isDigit cs in
            case dropWhile isDigit cs of
              [] \<Rightarrow> Some ip
            | d # r \<Rightarrow> if d = CHR ''.'' then Some (ip @ ''.'' @ takeWhile isDigit r) else Some ip)
      else matchRatingNumber cs)"

text \<open>A number has no \<open>match\<close> method: calling it throws a \<open>TypeError\<close>.\<close>

definition parseRating :: "jsval \<Rightarrow> error + rat option" where
  "parseRating ratingText =
     (if \<not> truthy ratingText then Inr None
      else (case ratingText of
              JStr s \<Rightarrow>
                (case matchRatingNumber s of
                   Some m \<Rightarrow>
                     (let rating = parseFloat m in
                      Inr (if 0 \<le> rating \<and> rating \<le> 5 then Some rating else None))
                 | None \<Rightarrow> Inr None)
            | _ \<Rightarrow> Inl TypeError))"

text \<open>\<open>text.match(/([\d,]+)/)\<close>, group 1: the first run of digits and commas.\<close>

fun matchReviewNumber :: "string \<Rightarrow> string option" where
  "matchReviewNumber [] = None"
| "matchReviewNumber (c # cs) =
     (if isDigit c \<or> c = CHR '',''
      then Some (c # takeWhile (\<lambda>c. isDigit c \<or> c = CHR '','') cs)
      else matchReviewNumber cs)"

definition parseReviewCount :: "jsval \<Rightarrow> error + nat" where
  "parseReviewCount reviewText =
     (if \<not> truthy reviewText then Inr 0
      else (case reviewText of
              JStr s \<Rightarrow>
                (case matchReviewNumber s of
                   Some m \<Rightarrow>
                     (case parseInt (filter (\<lambda>c. c \<noteq> CHR '','') m) of
                        None \<Rightarrow> Inr 0
                      | Some count \<Rightarrow> Inr count)
                 | None \<Rightarrow> Inr 0)
            | _ \<Rightarrow> Inl TypeError))"

subsection \<open>\<open>parseCoordinates\<close>\<close>

text \<open>
  \<open>-?\d+\.\d+\<close> at the start of a string: the matched text and what follows it. Every
  repetition is followed by a character outside its class, so the greedy match is the only one.
\<close>

definition matchDecimal :: "string \<Rightarrow> (string \<times> string) option" where
  "matchDecimal s =
     (let sign = (if s \<noteq> [] \<and> hd s = CHR ''-'' then ''-'' else []);
          s1 = drop (length sign) s;
          ip = takeWhile isDigit s1
      in if ip = [] then None
         else (case drop (length ip) s1 of
                 [] \<Rightarrow> None
               | d # s3 \<Rightarrow>
                   if d \<noteq> CHR ''.'' then None
                   else (let fp = takeWhile isDigit s3 in
                         if fp = [] then None
                         else Some (sign @ ip @ ''.'' @ fp, drop (length fp) s3))))"

text \<open>\<open>pre(-?\d+\.\d+)sep(-?\d+\.\d+)\<close> at the start of a string: the two groups.\<close>

definition matchPairAt :: "string \<Rightarrow> string \<Rightarrow> string \<Rightarrow> (string \<times> string) option" where
  "matchPairAt pre sep s =
     (if startsWith s pre
      then (case matchDecimal (drop (length pre) s) of
              None \<Rightarrow> None
            | Some (a, r) \<Rightarrow>
                if startsWith r sep
                then (case matchDecimal (drop (length sep) r) of
                        None \<Rightarrow> None
                      | Some (b, _) \<Rightarrow> Some (a, b))
                else None)
      else None)"

text \<open>\<open>url.match(...)\<close>: the match at the leftmost position that has one.\<close>

fun matchPair :: "string \<Rightarrow> string \<Rightarrow> string \<Rightarrow> (string \<times> string) option" where
  "matchPair pre sep [] = matchPairAt pre sep []"
| "matchPair pre sep (c # cs) =
     (case matchPairAt pre sep (c # cs) of
        Some m \<Rightarrow> Some m
      | None \<Rightarrow> matchPair pre sep cs)"

definition validRange :: "rat \<Rightarrow> rat \<Rightarrow> bool" where
  "validRange lat lng \<longleftrightarrow> - 90 \<le> lat \<and> lat \<le> 90 \<and> - 180 \<le> lng \<and> lng \<le> 180"

text \<open>The result is the pair \<open>(latitude, longitude)\<close> of the returned object.\<close>

definition parseCoordinates :: "string option \<Rightarrow> rat option \<times> rat option" where
  "parseCoordinates url =
     (case url of
        None \<Rightarrow> (None, None)
      | Some u \<Rightarrow>
          if u = [] then (None, None)
          else (case (case matchPair ''@'' '','' u of
                        Some (a, b) \<Rightarrow>
                          if validRange (parseFloat a) (parseFloat b)
                          then Some (parseFloat a, parseFloat b) else None
                      | None \<Rightarrow> None) of
                  Some (lat, lng) \<Rightarrow> (Some lat, Some lng)
                | None \<Rightarrow>
                    (case matchPair ''!3d'' ''!4d'' u of
                       Some (a, b) \<Rightarrow>
                         if validRange (parseFloat a) (parseFloat b)
                         then (Some (parseFloat a), Some (parseFloat b)) else (None, None)
                     | None \<Rightarrow> (None, None))))"

subsection \<open>\<open>parseAddress\<close>\<close>

text \<open>
  \<open>part.match(/([A-Z]{2})\s*(\d{5}(-\d{4})?)?/)\<close>, groups 1 and 2: the leftmost two capitals;
  after the white space that follows them, five digits and then, if present, a hyphen and four
  digits. The group is optional, so the white space is never given back.
\<close>

definition matchZip :: "string \<Rightarrow> string option" where
  "matchZip r =
     (if length (takeWhile isDigit (take 5 r)) = 5
      then Some (take 5 r @
                 (case drop 5 r of
                    [] \<Rightarrow> []
                  | h # t \<Rightarrow> if h = CHR ''-'' \<and> length (takeWhile isDigit (take 4 t)) = 4
                             then h # take 4 t else []))
      else None)"

fun matchStateZip :: "string \<Rightarrow> (string \<times> string option) option" where
  "matchStateZip (a # b # r) =
     (if isUpper a \<and> isUpper b then Some ([a, b], matchZip (dropWhile isSpace r))
      else matchStateZip (b # r))"
| "matchStateZip _ = None"

text \<open>The result is the tuple \<open>(street, city, state, zip, country)\<close> of the returned object.\<close>

type_synonym addressComponents =
  "string option \<times> string option \<times> string option \<times> string option \<times> string option"

definition addressParts :: "string \<Rightarrow> addressComponents" where
  \<comment> \<open>the five variables before the \<open>return\<close>, on a non-empty address\<close>
  "addressParts a =
     (let parts = map trim (split_comma a) in
      if 2 \<le> length parts
      then (let (state0, zip0) =
                  (if 3 \<le> length parts
                   then (case matchStateZip (parts ! 2) of
                           Some (st, z) \<Rightarrow> (orNull st, z)
                         | None \<Rightarrow> (orNull (parts ! 2), None))
                   else (None, None))
            in (orNull (parts ! 0), orNull (parts ! 1), state0, zip0,
                if 4 \<le> length parts then orNull (last parts) else None))
      else (None, None, None, None, None))"

definition parseAddress :: "string option \<Rightarrow> addressComponents" where
  "parseAddress fullAddress =
     (case fullAddress of
        None \<Rightarrow> (None, None, None, None, None)
      | Some a \<Rightarrow>
          if a = [] then (None, None, None, None, None)
          else (case addressParts a of
                  (street0, city0, state0, zip0, country0) \<Rightarrow>
                    (cleanString (jsOfStr street0), cleanString (jsOfStr city0),
                     cleanString (jsOfStr state0), cleanString (jsOfStr zip0),
                     (case cleanString (jsOfStr country0) of
                        Some c \<Rightarrow> Some c
                      | None \<Rightarrow> Some ''United States''))))"

subsection \<open>\<open>validateBusinessHours\<close>\<close>

text \<open>
  An hours object is the list of its entries in insertion order; \<open>obj[k] = v\<close> replaces the
  value of a key that is present and appends a new key.
\<close>

fun objSet :: "(string \<times> 'v) list \<Rightarrow> string \<Rightarrow> 'v \<Rightarrow> (string \<times> 'v) list" where
  "objSet [] k v = [(k, v)]"
| "objSet ((k', v') # kvs) k v =
     (if k' = k then (k, v) # kvs else (k', v') # objSet kvs k v)"

definition validDays :: "string list" where
  "validDays = [''Monday'', ''Tuesday'', ''Wednesday'', ''Thursday'', ''Friday'',
                ''Saturday'', ''Sunday'']"

text \<open>The values of an hours object are strings here, so \<open>typeof time === 'string'\<close> holds.\<close>

definition validatedHoursOf :: "(string \<times> string) list \<Rightarrow> (string \<times> string) list" where
  \<comment> \<open>the object \<open>validatedHours\<close> after the \<open>for\<close> loop over \<open>Object.entries(hours)\<close>\<close>
  "validatedHoursOf entries =
     foldl (\<lambda>acc (day, time).
              if day \<in> set validDays \<and> trim time \<noteq> []
              then objSet acc day (trim time) else acc) [] entries"

definition validateBusinessHours ::
  "(string \<times> string) list option \<Rightarrow> (string \<times> string) list option" where
  "validateBusinessHours hours =
     (case hours of
        None \<Rightarrow> None
      | Some entries \<Rightarrow>
          if entries = [] then None
          else (let validatedHours = validatedHoursOf entries
                in if validatedHours \<noteq> [] then Some validatedHours else None))"

section \<open>The validated record and the filter (\<open>utils/validation.js\<close>)\<close>

record business =
  businessName :: "string option"
  address :: "string option"
  street :: "string option"
  city :: "string option"
  state :: "string option"
  zip :: "string option"
  country :: "string option"
  phone :: "string option"
  website :: "string option"
  rating :: "rat option"
  reviewCount :: nat
  category :: "string option"
  priceLevel :: "string option"
  priceRange :: "string option"
  googleMapsUrl :: "string option"
  latitude :: "rat option"
  longitude :: "rat option"
  businessHours :: "(string \<times> string) list option"
  emails :: "string list"
  emailSource :: string

record filters =
  minRating :: rat
  minReviews :: rat
  filterByPriceLevel :: "string list"
  minPrice :: rat
  maxPrice :: rat

text \<open>
  \<open>meetsFilterCriteria(business, filters)\<close>: the four checks in the source's order, each with
  its \<open>return false\<close>. A check reads its field only behind the field's truthiness.
\<close>

fun ratingBelow :: "rat option \<Rightarrow> rat \<Rightarrow> bool" where
  \<comment> \<open>\<open>business.rating\<close> is truthy and \<open>business.rating < minRating\<close>\<close>
  "ratingBelow None m = False"
| "ratingBelow (Some r) m = (r \<noteq> 0 \<and> r < m)"

definition reviewsBelow :: "nat \<Rightarrow> rat \<Rightarrow> bool" where
  \<comment> \<open>\<open>business.reviewCount\<close> is truthy and \<open>business.reviewCount < minReviews\<close>\<close>
  "reviewsBelow n m \<longleftrightarrow> n \<noteq> 0 \<and> of_nat n < m"

fun levelExcluded :: "string option \<Rightarrow> string list \<Rightarrow> bool" where
  \<comment> \<open>\<open>business.priceLevel\<close> is truthy and \<open>!filterByPriceLevel.includes(business.priceLevel)\<close>\<close>
  "levelExcluded None ls = False"
| "levelExcluded (Some l) ls = (l \<noteq> [] \<and> l \<notin> set ls)"

text \<open>
  The price block on a truthy \<open>priceRange\<close>; \<open>businessMinPrice\<close> is \<open>parseInt(priceNumbers[0], 10)\<close>
  on a run of digits.
\<close>

definition priceRangeOk :: "string \<Rightarrow> rat \<Rightarrow> rat \<Rightarrow> bool" where
  "priceRangeOk pr minP maxP =
     (let priceNumbers = matchDigitGroups pr in
      case priceNumbers of
        [] \<Rightarrow> True
      | p0 # _ \<Rightarrow>
          (let businessMinPrice = (of_nat (digitsValue p0) :: rat) in
           if 0 < minP \<and> businessMinPrice < minP then False
           else if 0 < maxP then
             (if CHR ''+'' \<in> set pr then
                (if maxP < businessMinPrice then False else True)
              else if length priceNumbers = 2 then
                (if maxP < businessMinPrice then False else True)
              else True)
           else True))"

fun priceExcluded :: "string option \<Rightarrow> rat \<Rightarrow> rat \<Rightarrow> bool" where
  \<comment> \<open>\<open>business.priceRange\<close> is truthy and the price block returns \<open>false\<close>\<close>
  "priceExcluded None minP maxP = False"
| "priceExcluded (Some pr) minP maxP = (pr \<noteq> [] \<and> \<not> priceRangeOk pr minP maxP)"

definition meetsFilterCriteria :: "business \<Rightarrow> filters \<Rightarrow> bool" where
  "meetsFilterCriteria b f =
     (if 0 < minRating f \<and> ratingBelow (rating b) (minRating f) then False
      else if 0 < minReviews f \<and> reviewsBelow (reviewCount b) (minReviews f) then False
      else if filterByPriceLevel f \<noteq> []
              \<and> levelExcluded (priceLevel b) (filterByPriceLevel f) then False
      else if (0 < minPrice f \<or> 0 < maxPrice f)
              \<and> priceExcluded (priceRange b) (minPrice f) (maxPrice f) then False
      else True)"

subsection \<open>\<open>validateBusinessData\<close>\<close>

text \<open>
  The raw record that \<open>extractBusinessData\<close> builds; field \<open>x\<close> of the source is \<open>rawX\<close>.
  The name, the rating and the review count are arbitrary values, the other scalar fields are
  a string or \<open>null\<close>, and an absent \<open>emails\<close> array is the empty list.
\<close>

record rawData =
  rawBusinessName :: jsval
  rawAddress :: "string option"
  rawPhone :: "string option"
  rawWebsite :: "string option"
  rawRating :: jsval
  rawReviewCount :: jsval
  rawCategory :: "string option"
  rawPriceLevel :: "string option"
  rawPriceRange :: "string option"
  rawGoogleMapsUrl :: "string option"
  rawEmails :: "string list"
  rawEmailSource :: "string option"
  rawBusinessHours :: "(string \<times> string) list option"

text \<open>\<open>x || null\<close> on a nullable string.\<close>

definition orNullOpt :: "string option \<Rightarrow> string option" where
  "orNullOpt x = (if truthyStr x then x else None)"

text \<open>
  The object literal is evaluated field by field; \<open>parseRating\<close> and \<open>parseReviewCount\<close> are
  the calls that can throw, and a throw leaves the function.
\<close>

definition validateBusinessData ::
  "(string \<Rightarrow> URL option) \<Rightarrow> blacklist \<Rightarrow> rawData \<Rightarrow> error + business" where
  "validateBusinessData newURL bl raw =
     (let (lat, lng) = parseCoordinates (rawGoogleMapsUrl raw);
          (st, ci, sta, zp, co) = parseAddress (rawAddress raw);
          validatedEmails = List.map_filter (validateEmail bl) (rawEmails raw)
      in case parseRating (rawRating raw) of
           Inl e \<Rightarrow> Inl e
         | Inr r \<Rightarrow>
             (case parseReviewCount (rawReviewCount raw) of
                Inl e \<Rightarrow> Inl e
              | Inr n \<Rightarrow>
                  Inr \<lparr> businessName = cleanString (rawBusinessName raw),
                        address = cleanString (jsOfStr (rawAddress raw)),
                        street = st, city = ci, state = sta, zip = zp, country = co,
                        phone = cleanPhone (rawPhone raw),
                        website = validateUrl newURL (rawWebsite raw),
                        rating = r,
                        reviewCount = n,
                        category = cleanString (jsOfStr (rawCategory raw)),
                        priceLevel = orNullOpt (rawPriceLevel raw),
                        priceRange = orNullOpt (rawPriceRange raw),
                        googleMapsUrl = validateUrl newURL (rawGoogleMapsUrl raw),
                        latitude = lat, longitude = lng,
                        businessHours = validateBusinessHours (rawBusinessHours raw),
                        emails = validatedEmails,
                        emailSource = (case orNullOpt (rawEmailSource raw) of
                                         Some src \<Rightarrow> src | None \<Rightarrow> ''not_found'') \<rparr>))"

text \<open>
  A validated record handed to the Validator again: the same object, read as \<open>rawData\<close>.
\<close>

definition asRawData :: "business \<Rightarrow> rawData" where
  "asRawData b =
     \<lparr> rawBusinessName = jsOfStr (businessName b),
       rawAddress = address b,
       rawPhone = phone b,
       rawWebsite = website b,
       rawRating = (case rating b of None \<Rightarrow> JNull | Some r \<Rightarrow> JNum r),
       rawReviewCount = JNum (of_nat (reviewCount b)),
       rawCategory = category b,
       rawPriceLevel = priceLevel b,
       rawPriceRange = priceRange b,
       rawGoogleMapsUrl = googleMapsUrl b,
       rawEmails = emails b,
       rawEmailSource = Some (emailSource b),
       rawBusinessHours = businessHours b \<rparr>"

subsection \<open>\<open>extractEmailsFromHTML\<close>\<close>

text \<open>
  The pattern \<open>[a-zA-Z0-9._%+-]+@[a-zA-Z0-9.-]+\.[a-zA-Z]{2,}\<close> at the start of a string.
  The local part is the whole run of its class, which \<open>@\<close> must follow. The domain class
  holds the point and the letters, so the engine gives back characters of the domain run until
  a point followed by two letters is found: the last such point of the run; the letters after
  it are taken greedily.
\<close>

definition emailDomainEnd :: "string \<Rightarrow> nat option" where
  "emailDomainEnd run =
     (case filter (\<lambda>i. run ! i = CHR ''.''
                       \<and> 2 \<le> length (takeWhile isAlpha (drop (Suc i) run)))
                  (rev [1..<length run]) of
        [] \<Rightarrow> None
      | i # _ \<Rightarrow> Some (Suc i + length (takeWhile isAlpha (drop (Suc i) run))))"

definition emailAt :: "string \<Rightarrow> string option" where
  "emailAt s =
     (let localPart = takeWhile isLocalChar s in
      if localPart = [] then None
      else (case drop (length localPart) s of
              [] \<Rightarrow> None
            | c # r \<Rightarrow>
                if c \<noteq> CHR ''@'' then None
                else (case emailDomainEnd (takeWhile isDomainChar r) of
                        None \<Rightarrow> None
                      | Some n \<Rightarrow> Some (localPart @ ''@'' @ take n r))))"

text \<open>
  \<open>html.match(emailPattern) || []\<close> with the \<open>g\<close> flag: the matches from left to right, the
  search going on where the last match ended. A match is never empty.
\<close>

function matchEmails :: "string \<Rightarrow> string list" where
  "matchEmails [] = []"
| "matchEmails (c # cs) =
     (case emailAt (c # cs) of
        Some m \<Rightarrow> m # matchEmails (drop (length m - 1) cs)
      | None \<Rightarrow> matchEmails cs)"
  by pat_completeness auto
termination
  by (relation "measure length") (auto simp: less_Suc_eq_le)

text \<open>A \<open>Set\<close> is the list of its elements in insertion order.\<close>

definition setAdd :: "'a list \<Rightarrow> 'a \<Rightarrow> 'a list" where
  "setAdd s x = (if x \<in> set s then s else s @ [x])"

definition extractEmailsFromHTML :: "blacklist \<Rightarrow> string \<Rightarrow> string list" where
  "extractEmailsFromHTML bl html =
     (if html = [] then []
      else (let emails = matchEmails html;
                validEmails = List.map_filter (validateEmail bl) emails
            in foldl setAdd [] validEmails))"

section \<open>The email finder (\<open>emailFinder.js\<close>)\<close>

text \<open>
  What the finder sees of the web: the content of the page a URL loads (\<open>None\<close> when
  \<open>page.goto\<close> throws or times out) and the links \<open>findContactPages\<close> collects on it.
\<close>

record browser =
  pageContent :: "string \<Rightarrow> string option"
  contactPages :: "string \<Rightarrow> string list"

definition findEmailOnWebsite ::
  "blacklist \<Rightarrow> browser \<Rightarrow> string option \<Rightarrow> (string list \<times> string) option" where
  "findEmailOnWebsite bl br websiteUrl =
     (case websiteUrl of
        None \<Rightarrow> None
      | Some url \<Rightarrow>
          if url = [] then None
          else (case pageContent br url of
                  None \<Rightarrow> None
                | Some content \<Rightarrow>
                    (let allEmails = foldl setAdd [] (extractEmailsFromHTML bl content);
                         contactLinks = contactPages br url;
                         allEmails =
                           foldl (\<lambda>acc link.
                                    case pageContent br link of
                                      None \<Rightarrow> acc
                                    | Some c \<Rightarrow> foldl setAdd acc (extractEmailsFromHTML bl c))
                                 allEmails (take 2 contactLinks)
                     in if allEmails \<noteq> [] then Some (allEmails, ''website'') else None)))"

text \<open>
  \<open>batchFindEmails\<close>: the tasks run under a concurrency limit, each on its own record and its
  own browsing context, so the result is the map of the task over the records.
\<close>

definition findEmailsTask :: "blacklist \<Rightarrow> browser \<Rightarrow> business \<Rightarrow> business" where
  "findEmailsTask bl br b =
     (if \<not> truthyStr (website b) then b
      else (case findEmailOnWebsite bl br (website b) of
              Some (es, src) \<Rightarrow> b\<lparr>emails := es, emailSource := src\<rparr>
            | None \<Rightarrow> b\<lparr>emails := [], emailSource := ''not_found''\<rparr>))"

definition batchFindEmails :: "blacklist \<Rightarrow> browser \<Rightarrow> business list \<Rightarrow> business list" where
  "batchFindEmails bl br bs = map (findEmailsTask bl br) bs"

text \<open>
  \<open>findEmailInGoogleProfile\<close> on the \<open>href\<close> of the first \<open>mailto:\<close> link of the detail view, if
  there is one: \<open>href.replace('mailto:', '').split('?')[0]\<close>.
\<close>

fun removeFirst :: "string \<Rightarrow> string \<Rightarrow> string" where
  "removeFirst p [] = []"
| "removeFirst p (c # cs) =
     (if startsWith (c # cs) p then drop (length p) (c # cs) else c # removeFirst p cs)"

definition findEmailInGoogleProfile :: "string option \<Rightarrow> string option" where
  "findEmailInGoogleProfile mailtoHref =
     (case mailtoHref of
        None \<Rightarrow> None
      | Some h \<Rightarrow>
          if h = [] then None
          else Some (takeWhile (\<lambda>c. c \<noteq> CHR ''?'') (removeFirst ''mailto:'' h)))"

section \<open>The scraper (\<open>scraper.js\<close>)\<close>

subsection \<open>\<open>extractHoursData\<close>\<close>

text \<open>
  The labels are matched with the \<open>i\<close> flag: a pattern letter matches a character whose lower
  case is the letter's.
\<close>

definition startsWithCI :: "string \<Rightarrow> string \<Rightarrow> bool" where
  "startsWithCI s p \<longleftrightarrow>
     length p \<le> length s \<and> toLowerCase (take (length p) s) = toLowerCase p"

text \<open>
  \<open>^(Monday|Tuesday|Wednesday|Thursday|Friday|Saturday|Sunday)\<close>: the text of group 1, as the
  label writes it, and the rest of the label. No name is a prefix of another, whatever the
  letter case.
\<close>

definition matchDay :: "string \<Rightarrow> (string \<times> string) option" where
  "matchDay s =
     (case find (\<lambda>d. startsWithCI s d) validDays of
        None \<Rightarrow> None
      | Some d \<Rightarrow> Some (take (length d) s, drop (length d) s))"

text \<open>\<open>,\s*Copy open hours\<close> at the start of a string.\<close>

definition matchCopySuffix :: "string \<Rightarrow> bool" where
  "matchCopySuffix s =
     (case s of
        [] \<Rightarrow> False
      | c # r \<Rightarrow> c = CHR '','' \<and> startsWithCI (dropWhile isSpace r) ''Copy open hours'')"

text \<open>
  \<open>(.+?)\<close> followed by the suffix: the lazy group takes one character, none a line terminator,
  and one more each time the suffix does not follow.
\<close>

fun lazyTimeRange :: "string \<Rightarrow> string \<Rightarrow> string option" where
  "lazyTimeRange acc [] = None"
| "lazyTimeRange acc (c # cs) =
     (if isLineTerminator c then None
      else if matchCopySuffix cs then Some (acc @ [c])
      else lazyTimeRange (acc @ [c]) cs)"

text \<open>
  \<open>,\s*(.+?),\s*Copy open hours\<close> at the start of a string, group 2: the greedy \<open>\s*\<close> takes
  all the white space first and gives it back one character at a time.
\<close>

definition matchTimeRange :: "string \<Rightarrow> string option" where
  "matchTimeRange s =
     (case s of
        [] \<Rightarrow> None
      | c # r \<Rightarrow>
          if c \<noteq> CHR '','' then None
          else (case List.map_filter (\<lambda>k. lazyTimeRange [] (drop k r))
                       (rev [0..<Suc (length (takeWhile isSpace r))]) of
                  [] \<Rightarrow> None
                | t # _ \<Rightarrow> Some t))"

definition matchHoursLabel :: "string \<Rightarrow> (string \<times> string) option" where
  "matchHoursLabel ariaLabel =
     (case matchDay ariaLabel of
        None \<Rightarrow> None
      | Some (day, rest) \<Rightarrow>
          (case matchTimeRange rest of
             None \<Rightarrow> None
           | Some t \<Rightarrow> Some (day, t)))"

text \<open>The body of \<open>buttons.forEach\<close>, on the pair of \<open>hours\<close> and \<open>seenDays\<close>.\<close>

definition hoursStep ::
  "(string \<times> string) list \<times> string list \<Rightarrow> string \<Rightarrow> (string \<times> string) list \<times> string list"
  where
  "hoursStep acc ariaLabel =
     (case acc of (hours, seenDays) \<Rightarrow>
        if ariaLabel = [] then (hours, seenDays)
        else (case matchHoursLabel ariaLabel of
                None \<Rightarrow> (hours, seenDays)
              | Some (day, t) \<Rightarrow>
                  if day \<notin> set seenDays
                  then (objSet hours day (trim t), setAdd seenDays day)
                  else (hours, seenDays)))"

text \<open>
  The argument is the list of \<open>aria-label\<close>s of the buttons the opened hours panel shows, and
  \<open>None\<close> when no hours button is found or the click throws.
\<close>

definition extractHoursData :: "string list option \<Rightarrow> (string \<times> string) list option" where
  "extractHoursData panel =
     (case panel of
        None \<Rightarrow> None
      | Some labels \<Rightarrow>
          (let hoursData = fst (foldl hoursStep ([], []) labels)
           in if hoursData = [] then None else Some hoursData))"

subsection \<open>\<open>extractBusinessData\<close>\<close>

text \<open>
  What the opened detail view of a card yields to the selectors: the texts found, the first
  group of the rating and review labels, the hours panel and the \<open>mailto:\<close> link.
\<close>

record detailView =
  dvBusinessName :: "string option"
  dvAddress :: "string option"
  dvPhone :: "string option"
  dvWebsite :: "string option"
  dvRating :: "string option"
  dvReviewCount :: string
  dvCategory :: "string option"
  dvPriceLevel :: "string option"
  dvPriceRange :: "string option"
  dvHoursPanel :: "string list option"
  dvMailtoHref :: "string option"

text \<open>
  A card of the results feed: its \<open>href\<close>, and the detail view its click opens (\<open>None\<close> when
  an interaction with the page throws).
\<close>

record card =
  cardHref :: "string option"
  cardDetail :: "detailView option"

definition fullUrl :: "string \<Rightarrow> string" where
  "fullUrl businessUrl =
     (if startsWith businessUrl ''http'' then businessUrl
      else ''https://www.google.com/maps'' @ businessUrl)"

text \<open>
  The object that \<open>extractBusinessData\<close> returns for a card with the given \<open>href\<close> once the
  name is found. The flag \<open>extractBusinessHours\<close> is the one of \<open>scraper.js\<close>; the older copy
  of the module always reads the hours.
\<close>

definition rawOfDetail :: "bool \<Rightarrow> string \<Rightarrow> detailView \<Rightarrow> rawData" where
  "rawOfDetail extractBusinessHours businessUrl dv =
     (let profileEmail = findEmailInGoogleProfile (dvMailtoHref dv) in
      \<lparr> rawBusinessName = jsOfStr (dvBusinessName dv),
        rawAddress = dvAddress dv,
        rawPhone = dvPhone dv,
        rawWebsite = dvWebsite dv,
        rawRating = jsOfStr (dvRating dv),
        rawReviewCount = JStr (dvReviewCount dv),
        rawCategory = dvCategory dv,
        rawPriceLevel = dvPriceLevel dv,
        rawPriceRange = dvPriceRange dv,
        rawGoogleMapsUrl = Some (fullUrl businessUrl),
        rawEmails = (case orNullOpt profileEmail of Some e \<Rightarrow> [e] | None \<Rightarrow> []),
        rawEmailSource = Some (case orNullOpt profileEmail of
                                 Some e \<Rightarrow> ''google_profile''
                               | None \<Rightarrow> ''not_found''),
        rawBusinessHours = (if extractBusinessHours
                            then extractHoursData (dvHoursPanel dv) else None) \<rparr>)"

text \<open>
  \<open>extractBusinessData\<close>: the result and the set of seen URLs after the call. A card without
  \<open>href\<close> or with a seen one is left before any click; an error inside is caught and gives
  \<open>null\<close>, as a missing name does.
\<close>

definition extractBusinessData ::
  "bool \<Rightarrow> string list \<Rightarrow> card \<Rightarrow> rawData option \<times> string list" where
  "extractBusinessData extractBusinessHours seen c =
     (case cardHref c of
        None \<Rightarrow> (None, seen)
      | Some businessUrl \<Rightarrow>
          if businessUrl = [] \<or> businessUrl \<in> set seen then (None, seen)
          else (let seen' = setAdd seen businessUrl in
                case cardDetail c of
                  None \<Rightarrow> (None, seen')
                | Some dv \<Rightarrow>
                    if \<not> truthyStr (dvBusinessName dv) then (None, seen')
                    else (Some (rawOfDetail extractBusinessHours businessUrl dv), seen')))"

subsection \<open>\<open>extractBusinessListings\<close>\<close>

text \<open>The parameters of a walk that no iteration changes.\<close>

record walkConfig =
  newURL :: "string \<Rightarrow> URL option"
  emailBlacklist :: blacklist
  extractBusinessHours :: bool
  maxResults :: nat
  walkFilters :: filters

text \<open>
  One turn of the \<open>for\<close> loop on a card: the extraction, the validation and the filter. An
  error thrown by the validation is caught and logged, and the card is skipped. The Validator
  returns an object, so the test \<open>!validatedData\<close> of \<open>scraper.js\<close> never holds.
\<close>

definition visitCard ::
  "walkConfig \<Rightarrow> business list \<times> string list \<Rightarrow> card \<Rightarrow> business list \<times> string list" where
  "visitCard cfg acc c =
     (case acc of (bs, seen) \<Rightarrow>
        (case extractBusinessData (extractBusinessHours cfg) seen c of
           (None, seen') \<Rightarrow> (bs, seen')
         | (Some businessData, seen') \<Rightarrow>
             (case validateBusinessData (newURL cfg) (emailBlacklist cfg) businessData of
                Inl e \<Rightarrow> (bs, seen')
              | Inr validatedData \<Rightarrow>
                  if meetsFilterCriteria validatedData (walkFilters cfg)
                  then (bs @ [validatedData], seen') else (bs, seen'))))"

text \<open>The \<open>for\<close> loop over the cards from \<open>previousCount\<close> on, left when the cap is reached.\<close>

fun visitCards ::
  "walkConfig \<Rightarrow> card list \<Rightarrow> business list \<times> string list \<Rightarrow> business list \<times> string list"
  where
  "visitCards cfg [] acc = acc"
| "visitCards cfg (c # cs) acc =
     (if length (fst acc) < maxResults cfg then visitCards cfg cs (visitCard cfg acc c)
      else acc)"

record walkState =
  businesses :: "business list"
  seenUrls :: "string list"
  previousCount :: nat
  noNewResultsCount :: nat

text \<open>
  The body of the \<open>while\<close> loop on the cards that \<open>page.$$\<close> returns: the state after it, and
  whether one of the two \<open>break\<close>s left the loop.
\<close>

definition walkIteration :: "walkConfig \<Rightarrow> card list \<Rightarrow> walkState \<Rightarrow> walkState \<times> bool" where
  "walkIteration cfg businessLinks st =
     (let (bs, seen) = visitCards cfg (drop (previousCount st) businessLinks)
                         (businesses st, seenUrls st);
          st1 = st\<lparr>businesses := bs, seenUrls := seen\<rparr>
      in if length businessLinks = previousCount st
            \<and> 3 \<le> noNewResultsCount st + 1
         then (st1\<lparr>noNewResultsCount := noNewResultsCount st + 1\<rparr>, True)
         else (let st2 = st1\<lparr>noNewResultsCount :=
                                (if length businessLinks = previousCount st
                                 then noNewResultsCount st + 1 else 0),
                              previousCount := length businessLinks\<rparr>
               in (st2, maxResults cfg \<le> length bs)))"

text \<open>
  The \<open>while\<close> loop. The feed gives the cards rendered at each enumeration: \<open>feed k\<close> is what
  \<open>page.$$(SELECTORS.businessCard)\<close> returns in iteration \<open>k\<close>. A walk that never leaves the
  loop has the value \<open>None\<close>.
\<close>

partial_function (option) walkLoop ::
  "walkConfig \<Rightarrow> (nat \<Rightarrow> card list) \<Rightarrow> nat \<Rightarrow> walkState \<Rightarrow> business list option" where
  "walkLoop cfg feed k st =
     (if length (businesses st) < maxResults cfg
      then (case walkIteration cfg (feed k) st of
              (st', left) \<Rightarrow>
                if left then Some (businesses st') else walkLoop cfg feed (Suc k) st')
      else Some (businesses st))"

declare walkLoop.simps [code]

definition initialState :: walkState where
  "initialState = \<lparr> businesses = [], seenUrls = [], previousCount = 0, noNewResultsCount = 0 \<rparr>"

definition extractBusinessListings ::
  "walkConfig \<Rightarrow> (nat \<Rightarrow> card list) \<Rightarrow> business list option" where
  "extractBusinessListings cfg feed = walkLoop cfg feed 0 initialState"

section \<open>Notions of the statements\<close>

text \<open>
  The pairs of day and trimmed range that the labels of a panel give, in the labels' order.
\<close>

definition hoursEntries :: "string list \<Rightarrow> (string \<times> string) list" where
  "hoursEntries labels =
     List.map_filter (\<lambda>l. map_option (\<lambda>(day, t). (day, trim t)) (matchHoursLabel l)) labels"

text \<open>
  A card with the given \<open>href\<close> whose visit ends in the given validated record, accepted by the
  filter; and a card with the given \<open>href\<close> whose visit fails inside the detail view, by an
  error or because no name is found.
\<close>

definition cardYields :: "walkConfig \<Rightarrow> card \<Rightarrow> string \<Rightarrow> business \<Rightarrow> bool" where
  "cardYields cfg c u v \<longleftrightarrow>
     cardHref c = Some u \<and> u \<noteq> [] \<and>
     (case cardDetail c of
        None \<Rightarrow> False
      | Some dv \<Rightarrow>
          truthyStr (dvBusinessName dv)
          \<and> validateBusinessData (newURL cfg) (emailBlacklist cfg)
               (rawOfDetail (extractBusinessHours cfg) u dv) = Inr v
          \<and> meetsFilterCriteria v (walkFilters cfg))"

definition cardFails :: "card \<Rightarrow> string \<Rightarrow> bool" where
  "cardFails c u \<longleftrightarrow>
     cardHref c = Some u \<and> u \<noteq> [] \<and>
     (case cardDetail c of None \<Rightarrow> True | Some dv \<Rightarrow> \<not> truthyStr (dvBusinessName dv))"


section \<open>Example inputs\<close>

definition noFilters :: filters where
  "noFilters = \<lparr> minRating = 0, minReviews = 0, filterByPriceLevel = [], minPrice = 0,
                 maxPrice = 0 \<rparr>"

definition blankBusiness :: business where
  "blankBusiness =
     \<lparr> businessName = Some ''Acme Coffee'', address = None, street = None, city = None,
       state = None, zip = None, country = None, phone = None, website = None,
       rating = None, reviewCount = 0, category = None, priceLevel = None, priceRange = None,
       googleMapsUrl = None, latitude = None, longitude = None, businessHours = None,
       emails = [], emailSource = ''not_found'' \<rparr>"

text \<open>A URL with the \<open>@\<close> pattern only, and one with both patterns whose \<open>@\<close> latitude is 95.5.\<close>

definition urlAt :: string where
  "urlAt = ''https://www.google.com/maps/place/X/@40.6892,-73.9915,17z''"

definition urlBoth :: string where
  "urlBoth = ''https://www.google.com/maps/place/X/@95.5,10.5,17z/data=!3d40.5!4d-73.5''"

text \<open>
  A stand-in for the platform's URL parser on the example inputs: it accepts a text that
  starts with one of three schemes and leaves it as it is.
\<close>

definition exampleNewURL :: "string \<Rightarrow> URL option" where
  "exampleNewURL s =
     (if startsWith s ''https://'' then Some \<lparr> protocol = ''https:'', href = s \<rparr>
      else if startsWith s ''http://'' then Some \<lparr> protocol = ''http:'', href = s \<rparr>
      else if startsWith s ''ftp://'' then Some \<lparr> protocol = ''ftp:'', href = s \<rparr>
      else None)"

definition exampleBlacklist :: blacklist where
  "exampleBlacklist =
     \<lparr> domains = [''example.com'', ''sentry.io''],
       patterns = [\<lambda>s. startsWith s ''noreply@''] \<rparr>"

definition blankRaw :: rawData where
  "blankRaw =
     \<lparr> rawBusinessName = JStr ''Acme Coffee'', rawAddress = None, rawPhone = None,
       rawWebsite = None, rawRating = JNull, rawReviewCount = JStr ''0'', rawCategory = None,
       rawPriceLevel = None, rawPriceRange = None, rawGoogleMapsUrl = None, rawEmails = [],
       rawEmailSource = Some ''not_found'', rawBusinessHours = None \<rparr>"

definition exampleHtml :: string where
  "exampleHtml =
     ''<p>Sales@Acme.io, info@example.com; noreply@company.com sales@acme.io joe@acme.io</p>''"

definition rawWithEmails :: rawData where
  "rawWithEmails =
     blankRaw\<lparr>rawEmails := [''info@example.com'', ''noreply@company.com'', '' Sales@Acme.io '',
                            ''bad@@x.com'']\<rparr>"

definition exampleLabels :: "string list" where
  "exampleLabels =
     [''Monday, 9 AM to 5 PM, Copy open hours'', ''Tuesday, 9 AM to 5 PM, Copy open hours'',
      ''Monday, 11 AM to 9 PM, Copy open hours'']"

text \<open>Two labels for Monday, the first with the day in lower case.\<close>

definition mixedCaseLabels :: "string list" where
  "mixedCaseLabels =
     [''monday, 9 AM to 5 PM, Copy open hours'', ''Monday, 10 AM to 6 PM, Copy open hours'']"

text \<open>
  A validated record that carries an address from the profile's \<open>mailto:\<close> link and has a
  website; a browser on which every navigation fails; and one that loads a page with an address.
\<close>

definition profileBusiness :: business where
  "profileBusiness =
     blankBusiness\<lparr>website := Some ''https://acme.io/'', emails := [''owner@acme.io''],
                    emailSource := ''google_profile''\<rparr>"

definition deadBrowser :: browser where
  "deadBrowser = \<lparr> pageContent = (\<lambda>url. None), contactPages = (\<lambda>url. []) \<rparr>"

definition acmeBrowser :: browser where
  "acmeBrowser =
     \<lparr> pageContent = (\<lambda>url. if url = ''https://acme.io/''
                              then Some ''<a href=/contact>Contact</a> sales@acme.io''
                              else if url = ''https://acme.io/contact''
                              then Some ''Write to Joe@acme.io or sales@acme.io''
                              else None),
       contactPages = (\<lambda>url. [''https://acme.io/contact'', ''https://acme.io/about'',
                               ''https://acme.io/team'']) \<rparr>"

definition okDetail :: "string \<Rightarrow> detailView" where
  "okDetail name =
     \<lparr> dvBusinessName = Some name, dvAddress = None, dvPhone = None, dvWebsite = None,
       dvRating = None, dvReviewCount = ''0'', dvCategory = None, dvPriceLevel = None,
       dvPriceRange = None, dvHoursPanel = None, dvMailtoHref = None \<rparr>"

definition shopCard :: "string \<Rightarrow> string \<Rightarrow> card" where
  "shopCard n name = \<lparr> cardHref = Some (''/place/'' @ n), cardDetail = Some (okDetail name) \<rparr>"

definition noNameCard :: "string \<Rightarrow> card" where
  "noNameCard n =
     \<lparr> cardHref = Some (''/place/'' @ n),
       cardDetail = Some ((okDetail [])\<lparr>dvBusinessName := None\<rparr>) \<rparr>"

definition shopRecord :: "string \<Rightarrow> string \<Rightarrow> business" where
  "shopRecord n name =
     blankBusiness\<lparr>businessName := Some name,
                   googleMapsUrl := Some (''https://www.google.com/maps/place/'' @ n)\<rparr>"

definition fiveCards :: "card list" where
  "fiveCards = [shopCard ''1'' ''Shop 1'', noNameCard ''2'', shopCard ''3'' ''Shop 3'',
                noNameCard ''4'', shopCard ''5'' ''Shop 5'']"



definition exampleConfig :: walkConfig where
  "exampleConfig =
     \<lparr> newURL = exampleNewURL, emailBlacklist = exampleBlacklist, extractBusinessHours = False,
       maxResults = 3, walkFilters = noFilters \<rparr>"

text \<open>A card whose detail view gives a name of one space, as an \<open>aria-label\<close> can.\<close>

definition blankNameCard :: card where
  "blankNameCard = shopCard ''1'' '' ''"

text \<open>A raw record without rating and reviews, and the record the Validator makes of it.\<close>

definition richRaw :: rawData where
  "richRaw =
     blankRaw\<lparr>rawBusinessName := JStr ''  Acme   Coffee '', rawPhone := Some ''(212) 555-1234'',
              rawWebsite := Some ''https://acme.io/'', rawPriceLevel := Some ''$$'',
              rawEmails := ['' Owner@Acme.io ''], rawEmailSource := Some ''google_profile'',
              rawBusinessHours := Some [(''Monday'', '' 9 AM to 5 PM '')]\<rparr>"

definition richOut :: business where
  "richOut =
     blankBusiness\<lparr>phone := Some ''+12125551234'', website := Some ''https://acme.io/'',
                   priceLevel := Some ''$$'', emails := [''owner@acme.io''],
                   emailSource := ''google_profile'',
                   businessHours := Some [(''Monday'', ''9 AM to 5 PM'')]\<rparr>"

section \<open>Properties of the filter\<close>

lemma meets_price_absent:
  assumes "priceRange b = None"
  shows "meetsFilterCriteria b f = meetsFilterCriteria b (f\<lparr>minPrice := 0, maxPrice := 0\<rparr>)"
  using assms by (simp add: meetsFilterCriteria_def)

lemma meets_level_absent:
  assumes "priceLevel b = None"
  shows "meetsFilterCriteria b f = meetsFilterCriteria b (f\<lparr>filterByPriceLevel := []\<rparr>)"
  using assms by (simp add: meetsFilterCriteria_def)

lemma meets_plus:
  assumes "priceRange b = Some pr" "CHR ''+'' \<in> set pr" "matchDigitGroups pr = lo # rest"
    "0 < maxPrice f"
  shows "meetsFilterCriteria b f \<longleftrightarrow>
           meetsFilterCriteria b (f\<lparr>maxPrice := 0\<rparr>) \<and> of_nat (digitsValue lo) \<le> maxPrice f"
proof -
  have "pr \<noteq> []" using assms(2) by auto
  then show ?thesis using assms
    by (auto simp add: meetsFilterCriteria_def priceRangeOk_def Let_def)
qed

lemma meets_range:
  assumes "priceRange b = Some pr" "CHR ''+'' \<notin> set pr" "matchDigitGroups pr = [lo, hi]"
    "0 < maxPrice f"
  shows "meetsFilterCriteria b f \<longleftrightarrow>
           meetsFilterCriteria b (f\<lparr>maxPrice := 0\<rparr>) \<and> of_nat (digitsValue lo) \<le> maxPrice f"
proof -
  have "pr \<noteq> []" using assms(3) by auto
  then show ?thesis using assms
    by (auto simp add: meetsFilterCriteria_def priceRangeOk_def Let_def)
qed

lemma meets_noFilters: "meetsFilterCriteria b noFilters"
  by (simp add: meetsFilterCriteria_def noFilters_def)

lemma noFilters_reset:
  "noFilters\<lparr>maxPrice := 0\<rparr> = noFilters"
  "noFilters\<lparr>minPrice := 0, maxPrice := 0\<rparr> = noFilters"
  "noFilters\<lparr>filterByPriceLevel := []\<rparr> = noFilters"
  "noFilters\<lparr>minRating := 0\<rparr> = noFilters"
  "noFilters\<lparr>minReviews := 0\<rparr> = noFilters"
  by (simp_all add: noFilters_def)

lemma digit_groups_examples:
  "matchDigitGroups ''$100+'' = [''100'']"
  "matchDigitGroups ''$30-40'' = [''30'', ''40'']"
  "matchDigitGroups ''$50-100'' = [''50'', ''100'']"
  by (simp_all add: isDigit_def)

text \<open>
  C4. The sparse price fields only exclude a record that carries them. The outcome for a record
  without \<open>priceRange\<close> is the outcome with the price bounds switched off; for a record
  without \<open>priceLevel\<close> it is the outcome with the tier filter switched off. Under a positive
  \<open>maxPrice\<close>, a \<open>priceRange\<close> with a \<open>+\<close> and a digit group, and a \<open>priceRange\<close> without
  \<open>+\<close> and with exactly two digit groups, pass the bound exactly when the first digit group
  is at most \<open>maxPrice\<close>: the outcome is the outcome without the bound, and that comparison,
  whatever the second number.
\<close>

theorem meetsFilterCriteria_sparse_price:
  "(priceRange b = None \<longrightarrow>
      meetsFilterCriteria b f = meetsFilterCriteria b (f\<lparr>minPrice := 0, maxPrice := 0\<rparr>))
   \<and> (\<forall>pr lo rest. priceRange b = Some pr \<and> CHR ''+'' \<in> set pr
          \<and> matchDigitGroups pr = lo # rest \<and> 0 < maxPrice f \<longrightarrow>
        (meetsFilterCriteria b f \<longleftrightarrow>
           meetsFilterCriteria b (f\<lparr>maxPrice := 0\<rparr>) \<and> of_nat (digitsValue lo) \<le> maxPrice f))
   \<and> (\<forall>pr lo hi. priceRange b = Some pr \<and> CHR ''+'' \<notin> set pr
          \<and> matchDigitGroups pr = [lo, hi] \<and> 0 < maxPrice f \<longrightarrow>
        (meetsFilterCriteria b f \<longleftrightarrow>
           meetsFilterCriteria b (f\<lparr>maxPrice := 0\<rparr>) \<and> of_nat (digitsValue lo) \<le> maxPrice f))
   \<and> (priceLevel b = None \<longrightarrow>
        meetsFilterCriteria b f = meetsFilterCriteria b (f\<lparr>filterByPriceLevel := []\<rparr>))"
  using meets_price_absent [of b f] meets_level_absent [of b f] meets_plus [of b _ _ _ f]
    meets_range [of b _ _ _ f] by blast

theorem meetsFilterCriteria_sparse_price_witness:
  "meetsFilterCriteria (blankBusiness\<lparr>priceRange := None\<rparr>) (noFilters\<lparr>minPrice := 50\<rparr>)
   \<and> meetsFilterCriteria (blankBusiness\<lparr>priceRange := Some ''$100+''\<rparr>)
       (noFilters\<lparr>maxPrice := 150\<rparr>)
   \<and> \<not> meetsFilterCriteria (blankBusiness\<lparr>priceRange := Some ''$30-40''\<rparr>)
         (noFilters\<lparr>maxPrice := 20\<rparr>)
   \<and> meetsFilterCriteria (blankBusiness\<lparr>priceRange := Some ''$50-100''\<rparr>)
       (noFilters\<lparr>maxPrice := 60\<rparr>)
   \<and> meetsFilterCriteria (blankBusiness\<lparr>priceLevel := None\<rparr>)
       (noFilters\<lparr>filterByPriceLevel := [''$$'']\<rparr>)"
proof -
  have 1: "meetsFilterCriteria (blankBusiness\<lparr>priceRange := None\<rparr>) (noFilters\<lparr>minPrice := 50\<rparr>)"
    using meetsFilterCriteria_sparse_price
            [of "blankBusiness\<lparr>priceRange := None\<rparr>" "noFilters\<lparr>minPrice := 50\<rparr>"]
          meets_noFilters
    by (simp add: noFilters_reset)
  have 2: "meetsFilterCriteria (blankBusiness\<lparr>priceRange := Some ''$100+''\<rparr>)
             (noFilters\<lparr>maxPrice := 150\<rparr>)"
    using meetsFilterCriteria_sparse_price
            [of "blankBusiness\<lparr>priceRange := Some ''$100+''\<rparr>" "noFilters\<lparr>maxPrice := 150\<rparr>"]
          meets_noFilters digit_groups_examples
    by (simp add: noFilters_reset digitsValue_def digitVal_def noFilters_def)
  have 3: "\<not> meetsFilterCriteria (blankBusiness\<lparr>priceRange := Some ''$30-40''\<rparr>)
               (noFilters\<lparr>maxPrice := 20\<rparr>)"
    using meetsFilterCriteria_sparse_price
            [of "blankBusiness\<lparr>priceRange := Some ''$30-40''\<rparr>" "noFilters\<lparr>maxPrice := 20\<rparr>"]
          meets_noFilters digit_groups_examples
    by (simp add: noFilters_reset digitsValue_def digitVal_def noFilters_def)
  have 4: "meetsFilterCriteria (blankBusiness\<lparr>priceRange := Some ''$50-100''\<rparr>)
             (noFilters\<lparr>maxPrice := 60\<rparr>)"
    using meetsFilterCriteria_sparse_price
            [of "blankBusiness\<lparr>priceRange := Some ''$50-100''\<rparr>" "noFilters\<lparr>maxPrice := 60\<rparr>"]
          meets_noFilters digit_groups_examples
    by (simp add: noFilters_reset digitsValue_def digitVal_def noFilters_def)
  have 5: "meetsFilterCriteria (blankBusiness\<lparr>priceLevel := None\<rparr>)
             (noFilters\<lparr>filterByPriceLevel := [''$$'']\<rparr>)"
    using meetsFilterCriteria_sparse_price
            [of "blankBusiness\<lparr>priceLevel := None\<rparr>" "noFilters\<lparr>filterByPriceLevel := [''$$'']\<rparr>"]
          meets_noFilters
    by (simp add: noFilters_reset)
  show ?thesis using 1 2 3 4 5 by simp
qed

text \<open>
  C10. The rating and review checks compare only a truthy field: for a record whose rating is
  \<open>null\<close> the outcome is the outcome with \<open>minRating\<close> switched off, and for a record whose
  review count is 0 it is the outcome with \<open>minReviews\<close> switched off.
\<close>

theorem meetsFilterCriteria_null_rating_zero_reviews:
  "(rating b = None \<longrightarrow>
      meetsFilterCriteria b f = meetsFilterCriteria b (f\<lparr>minRating := 0\<rparr>))
   \<and> (reviewCount b = 0 \<longrightarrow>
      meetsFilterCriteria b f = meetsFilterCriteria b (f\<lparr>minReviews := 0\<rparr>))"
  by (simp add: meetsFilterCriteria_def reviewsBelow_def)

theorem meetsFilterCriteria_null_rating_zero_reviews_witness:
  "meetsFilterCriteria (blankBusiness\<lparr>rating := None\<rparr>) (noFilters\<lparr>minRating := 9 / 2\<rparr>)
   \<and> meetsFilterCriteria (blankBusiness\<lparr>reviewCount := 0\<rparr>) (noFilters\<lparr>minReviews := 100\<rparr>)"
proof -
  have 1: "meetsFilterCriteria (blankBusiness\<lparr>rating := None\<rparr>) (noFilters\<lparr>minRating := 9 / 2\<rparr>)"
    using meetsFilterCriteria_null_rating_zero_reviews
            [of "blankBusiness\<lparr>rating := None\<rparr>" "noFilters\<lparr>minRating := 9 / 2\<rparr>"]
          meets_noFilters
    by (simp add: noFilters_reset)
  have 2: "meetsFilterCriteria (blankBusiness\<lparr>reviewCount := 0\<rparr>) (noFilters\<lparr>minReviews := 100\<rparr>)"
    using meetsFilterCriteria_null_rating_zero_reviews
            [of "blankBusiness\<lparr>reviewCount := 0\<rparr>" "noFilters\<lparr>minReviews := 100\<rparr>"]
          meets_noFilters
    by (simp add: noFilters_reset)
  show ?thesis using 1 2 by simp
qed

section \<open>Properties of the coordinates\<close>

lemma parseCoordinates_both_or_neither:
  "parseCoordinates url = (None, None)
   \<or> (\<exists>lat lng. parseCoordinates url = (Some lat, Some lng) \<and> validRange lat lng)"
  by (auto simp add: parseCoordinates_def split: option.splits)

lemma parseCoordinates_at_wins:
  assumes "matchPair ''@'' '','' u = Some (a, b)" "validRange (parseFloat a) (parseFloat b)"
  shows "parseCoordinates (Some u) = (Some (parseFloat a), Some (parseFloat b))"
proof -
  have "u \<noteq> []" using assms(1) by (auto simp add: matchPairAt_def)
  then show ?thesis using assms by (simp add: parseCoordinates_def)
qed

lemma parseCoordinates_fallthrough:
  assumes "matchPair ''@'' '','' u = Some (a, b)"
    "\<not> validRange (parseFloat a) (parseFloat b)"
  shows "parseCoordinates (Some u) =
           (case matchPair ''!3d'' ''!4d'' u of
              Some (c, d) \<Rightarrow> if validRange (parseFloat c) (parseFloat d)
                              then (Some (parseFloat c), Some (parseFloat d)) else (None, None)
            | None \<Rightarrow> (None, None))"
proof -
  have "u \<noteq> []" using assms(1) by (auto simp add: matchPairAt_def)
  then show ?thesis using assms by (auto simp add: parseCoordinates_def split: option.splits)
qed

lemma validate_coordinates:
  assumes "validateBusinessData nu bl raw = Inr v"
  shows "(latitude v, longitude v) = parseCoordinates (rawGoogleMapsUrl raw)"
  using assms
  by (auto simp add: validateBusinessData_def Let_def split: prod.splits sum.splits)

lemmas coord_eval = urlAt_def urlBoth_def matchPairAt_def matchDecimal_def isDigit_def
  validRange_def parseFloat_def digitsValue_def digitVal_def parseCoordinates_def Let_def

lemma validateBusinessData_returns:
  assumes "parseRating (rawRating raw) = Inr r" "parseReviewCount (rawReviewCount raw) = Inr n"
  shows "\<exists>v. validateBusinessData nu bl raw = Inr v"
  using assms by (simp add: validateBusinessData_def split: prod.splits)

lemma blankRaw_parses:
  "parseRating (rawRating (blankRaw\<lparr>rawGoogleMapsUrl := u\<rparr>)) = Inr None"
  "parseReviewCount (rawReviewCount (blankRaw\<lparr>rawGoogleMapsUrl := u\<rparr>)) = Inr 0"
  by (simp_all add: blankRaw_def parseRating_def parseReviewCount_def parseInt_def isDigit_def
        digitsValue_def digitVal_def)

text \<open>
  The claim that the \<open>@\<close> values win whenever both patterns are present fails on a URL whose
  \<open>@\<close> latitude is out of range: the \<open>!3d\<close> values are returned.
\<close>

theorem parseCoordinates_at_first_counterexample:
  "matchPair ''@'' '','' urlBoth = Some (''95.5'', ''10.5'')
   \<and> matchPair ''!3d'' ''!4d'' urlBoth = Some (''40.5'', ''-73.5'')
   \<and> parseCoordinates (Some urlBoth) = (Some (81 / 2), Some (- (147 / 2)))
   \<and> parseCoordinates (Some urlBoth) \<noteq> (Some (parseFloat ''95.5''), Some (parseFloat ''10.5''))"
  by (simp add: coord_eval)

text \<open>
  C5, amended. \<open>parseCoordinates\<close> returns both coordinates, the latitude in [-90, 90] and
  the longitude in [-180, 180], or neither. When the first \<open>@lat,lng\<close> match is in range its
  values are returned, whatever else the URL holds; when it is out of range the first
  \<open>!3dLAT!4dLNG\<close> match decides instead. Every validated record has both coordinates or
  neither.
\<close>

theorem parseCoordinates_both_or_neither_at_in_range_first:
  "(parseCoordinates url = (None, None)
      \<or> (\<exists>lat lng. parseCoordinates url = (Some lat, Some lng)
            \<and> - 90 \<le> lat \<and> lat \<le> 90 \<and> - 180 \<le> lng \<and> lng \<le> 180))
   \<and> (\<forall>u a b. matchPair ''@'' '','' u = Some (a, b) \<and> validRange (parseFloat a) (parseFloat b)
         \<longrightarrow> parseCoordinates (Some u) = (Some (parseFloat a), Some (parseFloat b)))
   \<and> (\<forall>u a b. matchPair ''@'' '','' u = Some (a, b) \<and> \<not> validRange (parseFloat a) (parseFloat b)
         \<longrightarrow> parseCoordinates (Some u) =
               (case matchPair ''!3d'' ''!4d'' u of
                  Some (c, d) \<Rightarrow> if validRange (parseFloat c) (parseFloat d)
                                  then (Some (parseFloat c), Some (parseFloat d))
                                  else (None, None)
                | None \<Rightarrow> (None, None)))
   \<and> (\<forall>nu bl raw v. validateBusinessData nu bl raw = Inr v
         \<longrightarrow> (latitude v = None \<longleftrightarrow> longitude v = None))"
proof -
  have 1: "parseCoordinates url = (None, None)
      \<or> (\<exists>lat lng. parseCoordinates url = (Some lat, Some lng)
            \<and> - 90 \<le> lat \<and> lat \<le> 90 \<and> - 180 \<le> lng \<and> lng \<le> 180)"
    using parseCoordinates_both_or_neither [of url] by (simp add: validRange_def)
  have 4: "latitude v = None \<longleftrightarrow> longitude v = None"
    if "validateBusinessData nu bl raw = Inr v" for nu bl raw v
    using validate_coordinates [OF that]
      parseCoordinates_both_or_neither [of "rawGoogleMapsUrl raw"] by auto
  show ?thesis
    using 1 4 parseCoordinates_at_wins parseCoordinates_fallthrough by blast
qed

theorem parseCoordinates_both_or_neither_at_in_range_first_witness:
  "parseCoordinates (Some urlAt) = (Some (parseFloat ''40.6892''), Some (parseFloat ''-73.9915''))
   \<and> parseCoordinates (Some urlBoth) = (Some (parseFloat ''40.5''), Some (parseFloat ''-73.5''))
   \<and> (latitude (projr (validateBusinessData exampleNewURL exampleBlacklist
                          (blankRaw\<lparr>rawGoogleMapsUrl := Some urlAt\<rparr>))) \<noteq> None)
   \<and> (longitude (projr (validateBusinessData exampleNewURL exampleBlacklist
                          (blankRaw\<lparr>rawGoogleMapsUrl := Some urlAt\<rparr>))) \<noteq> None)"
proof -
  note inst = parseCoordinates_both_or_neither_at_in_range_first [of "Some urlAt"]
  have m1: "matchPair ''@'' '','' urlAt = Some (''40.6892'', ''-73.9915'')" by (simp add: coord_eval)
  have r1: "validRange (parseFloat ''40.6892'') (parseFloat ''-73.9915'')" by (simp add: coord_eval)
  have m2: "matchPair ''@'' '','' urlBoth = Some (''95.5'', ''10.5'')" by (simp add: coord_eval)
  have r2: "\<not> validRange (parseFloat ''95.5'') (parseFloat ''10.5'')" by (simp add: coord_eval)
  have m3: "matchPair ''!3d'' ''!4d'' urlBoth = Some (''40.5'', ''-73.5'')" by (simp add: coord_eval)
  have r3: "validRange (parseFloat ''40.5'') (parseFloat ''-73.5'')" by (simp add: coord_eval)
  obtain v where v: "validateBusinessData exampleNewURL exampleBlacklist
                          (blankRaw\<lparr>rawGoogleMapsUrl := Some urlAt\<rparr>) = Inr v"
    using validateBusinessData_returns [OF blankRaw_parses] by blast
  have lat: "latitude v \<noteq> None"
    using validate_coordinates [OF v] parseCoordinates_at_wins [OF m1 r1] by auto
  have a: "parseCoordinates (Some urlAt) = (Some (parseFloat ''40.6892''), Some (parseFloat ''-73.9915''))"
    using inst [THEN conjunct2, THEN conjunct1, rule_format, of urlAt "''40.6892''" "''-73.9915''"]
      m1 r1 by simp
  have b: "parseCoordinates (Some urlBoth) = (Some (parseFloat ''40.5''), Some (parseFloat ''-73.5''))"
    using inst [THEN conjunct2, THEN conjunct2, THEN conjunct1, rule_format,
                of urlBoth "''95.5''" "''10.5''"]
      m2 r2 m3 r3 by simp
  have c: "longitude v \<noteq> None"
    using inst [THEN conjunct2, THEN conjunct2, THEN conjunct2, rule_format, OF v] lat by simp
  show ?thesis using a b c lat v by simp
qed

section \<open>Properties of the email validation\<close>

lemma toLowerChar_idem: "toLowerChar (toLowerChar c) = toLowerChar c"
  by (simp add: toLowerChar_def Let_def)

lemma toLowerCase_idem: "toLowerCase (toLowerCase s) = toLowerCase s"
  by (simp add: toLowerCase_def toLowerChar_idem)

lemma validateEmail_Some:
  assumes "validateEmail bl email = Some t"
  shows "t = toLowerCase (trim email)"
    and "\<not> list_ex (\<lambda>domain. includesStr t domain) (domains bl)"
    and "\<not> list_ex (\<lambda>pattern. pattern t) (patterns bl)"
    and "emailRegexTest t"
  using assms by (auto simp add: validateEmail_def Let_def split: if_splits)

lemma validateEmail_clean:
  assumes "validateEmail bl email = Some t"
  shows "(\<forall>d \<in> set (domains bl). \<not> includesStr (toLowerCase t) d)
         \<and> (\<forall>p \<in> set (patterns bl). \<not> p t) \<and> emailRegexTest t"
  using validateEmail_Some [OF assms] by (auto simp add: toLowerCase_idem list_ex_iff)

lemma set_map_filter: "set (List.map_filter f xs) = {y. \<exists>x \<in> set xs. f x = Some y}"
  by (induction xs) (auto simp add: List.map_filter_simps split: option.splits)

lemma set_foldl_setAdd: "set (foldl setAdd acc xs) = set acc \<union> set xs"
  by (induction xs arbitrary: acc) (auto simp add: setAdd_def)

lemma distinct_foldl_setAdd: "distinct acc \<Longrightarrow> distinct (foldl setAdd acc xs)"
  by (induction xs arbitrary: acc) (auto simp add: setAdd_def)

lemma nths_first_occ_snoc:
  "nths (xs @ [x]) {i. i < length (xs @ [x]) \<and> (xs @ [x]) ! i \<notin> set (take i (xs @ [x]))}
   = nths xs {i. i < length xs \<and> xs ! i \<notin> set (take i xs)} @ (if x \<in> set xs then [] else [x])"
proof -
  let ?A = "{i. i < length (xs @ [x]) \<and> (xs @ [x]) ! i \<notin> set (take i (xs @ [x]))}"
  let ?B = "{i. i < length xs \<and> xs ! i \<notin> set (take i xs)}"
  have 1: "nths xs ?A = nths xs ?B"
    unfolding nths_def
    by (rule arg_cong [where f = "map fst"], rule filter_cong)
       (auto simp add: set_zip nth_append)
  have 2: "nths [x] {j. j + length xs \<in> ?A} = (if x \<in> set xs then [] else [x])"
    by (auto simp add: nths_Cons nth_append)
  show ?thesis using 1 2 by (simp add: nths_append del: nths_singleton)
qed

lemma foldl_setAdd_first_occurrences:
  "foldl setAdd [] xs = nths xs {i. i < length xs \<and> xs ! i \<notin> set (take i xs)}"
proof (induction xs rule: rev_induct)
  case Nil
  then show ?case by simp
next
  case (snoc x xs)
  have "foldl setAdd [] (xs @ [x]) = setAdd (foldl setAdd [] xs) x" by simp
  also have "\<dots> = foldl setAdd [] xs @ (if x \<in> set xs then [] else [x])"
    by (simp add: setAdd_def set_foldl_setAdd)
  finally show ?case using snoc nths_first_occ_snoc [of xs x] by simp
qed

lemma validate_emails:
  assumes "validateBusinessData nu bl raw = Inr v"
  shows "emails v = List.map_filter (validateEmail bl) (rawEmails raw)"
  using assms
  by (auto simp add: validateBusinessData_def Let_def split: prod.splits sum.splits)

lemma extractEmailsFromHTML_eq:
  "extractEmailsFromHTML bl html =
     foldl setAdd [] (List.map_filter (validateEmail bl) (matchEmails html))"
  by (cases html) (simp_all add: extractEmailsFromHTML_def List.map_filter_simps)

text \<open>
  C9. Every address that \<open>validateBusinessData\<close> keeps, and every address that
  \<open>extractEmailsFromHTML\<close> returns, contains no blacklisted domain in its lower-case form,
  matches no blacklisted pattern and passes the syntax expression. \<open>extractEmailsFromHTML\<close>
  returns no address twice: its result is the list of valid addresses restricted to the
  positions whose address does not occur earlier, that is, first occurrences in their order.
\<close>

theorem validated_emails_clean_and_unique:
  "(\<forall>v. validateBusinessData nu bl raw = Inr v \<longrightarrow>
        (\<forall>e \<in> set (emails v).
           (\<forall>d \<in> set (domains bl). \<not> includesStr (toLowerCase e) d)
           \<and> (\<forall>p \<in> set (patterns bl). \<not> p e) \<and> emailRegexTest e))
   \<and> (\<forall>e \<in> set (extractEmailsFromHTML bl html).
           (\<forall>d \<in> set (domains bl). \<not> includesStr (toLowerCase e) d)
           \<and> (\<forall>p \<in> set (patterns bl). \<not> p e) \<and> emailRegexTest e)
   \<and> distinct (extractEmailsFromHTML bl html)
   \<and> (let valid = List.map_filter (validateEmail bl) (matchEmails html)
      in extractEmailsFromHTML bl html
           = nths valid {i. i < length valid \<and> valid ! i \<notin> set (take i valid)})"
proof -
  have a: "(\<forall>d \<in> set (domains bl). \<not> includesStr (toLowerCase e) d)
           \<and> (\<forall>p \<in> set (patterns bl). \<not> p e) \<and> emailRegexTest e"
    if "e \<in> set (List.map_filter (validateEmail bl) xs)" for e xs
  proof -
    from that obtain x where "validateEmail bl x = Some e"
      by (auto simp add: set_map_filter)
    then show ?thesis by (rule validateEmail_clean)
  qed
  have 1: "\<forall>v. validateBusinessData nu bl raw = Inr v \<longrightarrow>
        (\<forall>e \<in> set (emails v).
           (\<forall>d \<in> set (domains bl). \<not> includesStr (toLowerCase e) d)
           \<and> (\<forall>p \<in> set (patterns bl). \<not> p e) \<and> emailRegexTest e)"
    using a validate_emails by metis
  have 2: "\<forall>e \<in> set (extractEmailsFromHTML bl html).
           (\<forall>d \<in> set (domains bl). \<not> includesStr (toLowerCase e) d)
           \<and> (\<forall>p \<in> set (patterns bl). \<not> p e) \<and> emailRegexTest e"
  proof
    fix e assume "e \<in> set (extractEmailsFromHTML bl html)"
    then have "e \<in> set (List.map_filter (validateEmail bl) (matchEmails html))"
      by (simp add: extractEmailsFromHTML_eq set_foldl_setAdd)
    then show "(\<forall>d \<in> set (domains bl). \<not> includesStr (toLowerCase e) d)
           \<and> (\<forall>p \<in> set (patterns bl). \<not> p e) \<and> emailRegexTest e"
      by (rule a)
  qed
  have 3: "distinct (extractEmailsFromHTML bl html)"
    by (simp add: extractEmailsFromHTML_eq distinct_foldl_setAdd)
  have 4: "let valid = List.map_filter (validateEmail bl) (matchEmails html)
      in extractEmailsFromHTML bl html
           = nths valid {i. i < length valid \<and> valid ! i \<notin> set (take i valid)}"
    by (simp add: Let_def extractEmailsFromHTML_eq foldl_setAdd_first_occurrences)
  show ?thesis using 1 2 3 4 by blast
qed

lemma parse_null_rating: "parseRating JNull = Inr None"
  by (simp add: parseRating_def)

lemma parse_zero_reviews: "parseReviewCount (JStr ''0'') = Inr 0"
  by (simp add: parseReviewCount_def parseInt_def isDigit_def digitsValue_def digitVal_def)

theorem validated_emails_clean_and_unique_witness:
  "emails (projr (validateBusinessData exampleNewURL exampleBlacklist rawWithEmails))
     = [''sales@acme.io'']
   \<and> emailRegexTest ''sales@acme.io''
   \<and> \<not> includesStr (toLowerCase ''sales@acme.io'') ''example.com''
   \<and> extractEmailsFromHTML exampleBlacklist exampleHtml = [''sales@acme.io'', ''joe@acme.io'']
   \<and> distinct (extractEmailsFromHTML exampleBlacklist exampleHtml)"
proof -
  note inst = validated_emails_clean_and_unique
                [of exampleNewURL exampleBlacklist rawWithEmails exampleHtml]
  obtain v where v: "validateBusinessData exampleNewURL exampleBlacklist rawWithEmails = Inr v"
    using validateBusinessData_returns [of rawWithEmails None 0]
    by (auto simp add: rawWithEmails_def blankRaw_def parse_null_rating parse_zero_reviews)
  have es: "emails v = [''sales@acme.io'']"
    unfolding validate_emails [OF v] rawWithEmails_def by code_simp
  have mem: "''sales@acme.io'' \<in> set (emails v)"
    by (simp add: es)
  have ok: "(\<forall>d \<in> set (domains exampleBlacklist). \<not> includesStr (toLowerCase ''sales@acme.io'') d)
            \<and> (\<forall>p \<in> set (patterns exampleBlacklist). \<not> p ''sales@acme.io'')
            \<and> emailRegexTest ''sales@acme.io''"
    by (rule inst [THEN conjunct1, rule_format, OF v mem])
  have dom: "''example.com'' \<in> set (domains exampleBlacklist)"
    by (simp add: exampleBlacklist_def)
  have html: "extractEmailsFromHTML exampleBlacklist exampleHtml = [''sales@acme.io'', ''joe@acme.io'']"
    by code_simp
  have d: "distinct (extractEmailsFromHTML exampleBlacklist exampleHtml)"
    using inst by blast
  show ?thesis using v es ok dom html d by auto
qed

section \<open>Properties of the hours\<close>

lemma map_filter_append: "List.map_filter f (xs @ ys) = List.map_filter f xs @ List.map_filter f ys"
  by (simp add: List.map_filter_def)

lemma map_of_objSet: "map_of (objSet al k v) = (map_of al)(k \<mapsto> v)"
  by (induction al) (auto simp add: fun_eq_iff)

lemma keys_objSet:
  "map fst (objSet al k v) = (if k \<in> set (map fst al) then map fst al else map fst al @ [k])"
  by (induction al) (auto simp add: rev_image_eqI)

lemma dom_objSet: "fst ` set (objSet al k v) = insert k (fst ` set al)"
proof -
  have "set (map fst (objSet al k v)) = insert k (set (map fst al))"
    unfolding keys_objSet by auto
  then show ?thesis by simp
qed

lemma matchHoursLabel_Nil: "matchHoursLabel [] = None"
  by (simp add: matchHoursLabel_def matchDay_def startsWithCI_def validDays_def)

lemma hoursEntries_snoc:
  "hoursEntries (ls @ [l]) =
     hoursEntries ls @ (case matchHoursLabel l of None \<Rightarrow> [] | Some (d, t) \<Rightarrow> [(d, trim t)])"
  by (auto simp add: hoursEntries_def map_filter_append List.map_filter_simps split: option.splits)

lemma hours_fold_invariant:
  "case foldl hoursStep ([], []) labels of
     (h, s) \<Rightarrow> set s = set (map fst h) \<and> distinct (map fst h)
                \<and> map_of h = map_of (hoursEntries labels)"
proof (induction labels rule: rev_induct)
  case Nil
  then show ?case by (simp add: hoursEntries_def List.map_filter_simps)
next
  case (snoc l ls)
  obtain h s where hs: "foldl hoursStep ([], []) ls = (h, s)" by (cases "foldl hoursStep ([], []) ls")
  with snoc have inv: "set s = set (map fst h)" "distinct (map fst h)"
    "map_of h = map_of (hoursEntries ls)" by auto
  have step: "foldl hoursStep ([], []) (ls @ [l]) = hoursStep (h, s) l"
    using hs by simp
  show ?case unfolding step
  proof (cases "matchHoursLabel l")
    case None
    then have "hoursStep (h, s) l = (h, s)" by (simp add: hoursStep_def)
    then show "case hoursStep (h, s) l of
     (h, s) \<Rightarrow> set s = set (map fst h) \<and> distinct (map fst h)
                \<and> map_of h = map_of (hoursEntries (ls @ [l]))" using inv None
      by (simp add: hoursEntries_snoc)
  next
    case (Some dt)
    obtain d t where dt: "dt = (d, t)" by (cases dt)
    have nonempty: "l \<noteq> []" using Some matchHoursLabel_Nil by auto
    show "case hoursStep (h, s) l of
     (h, s) \<Rightarrow> set s = set (map fst h) \<and> distinct (map fst h)
                \<and> map_of h = map_of (hoursEntries (ls @ [l]))"
    proof (cases "d \<in> set s")
      case True
      then have "d \<in> dom (map_of (hoursEntries ls))"
        using inv by (metis dom_map_of_conv_image_fst set_map)
      then have "map_of (hoursEntries ls @ [(d, trim t)]) = map_of (hoursEntries ls)"
        by (auto simp add: fun_eq_iff map_add_def split: option.splits)
      moreover have "hoursStep (h, s) l = (h, s)"
        using Some dt nonempty True by (simp add: hoursStep_def)
      ultimately show ?thesis using inv Some dt
        by (simp add: hoursEntries_snoc)
    next
      case False
      then have "d \<notin> dom (map_of (hoursEntries ls))"
        using inv by (metis dom_map_of_conv_image_fst set_map)
      then have "map_of (hoursEntries ls @ [(d, trim t)]) = (map_of (hoursEntries ls))(d \<mapsto> trim t)"
        by (auto simp add: fun_eq_iff map_add_def split: option.splits)
      moreover have "hoursStep (h, s) l = (objSet h d (trim t), setAdd s d)"
        using Some dt nonempty False by (simp add: hoursStep_def)
      ultimately show ?thesis using inv Some dt False
        by (simp add: hoursEntries_snoc map_of_objSet keys_objSet dom_objSet setAdd_def)
    qed
  qed
qed

lemma extractHoursData_lookup:
  "extractHoursData (Some labels) = Some h \<Longrightarrow>
     map_of h = map_of (hoursEntries labels) \<and> distinct (map fst h)"
  using hours_fold_invariant [of labels]
  by (auto simp add: extractHoursData_def Let_def split: if_splits prod.splits)

lemma extractHoursData_None:
  "extractHoursData (Some labels) = None \<Longrightarrow> hoursEntries labels = []"
proof -
  assume a: "extractHoursData (Some labels) = None"
  obtain h s where hs: "foldl hoursStep ([], []) labels = (h, s)"
    by (cases "foldl hoursStep ([], []) labels")
  with a have "h = []" by (simp add: extractHoursData_def Let_def split: if_splits)
  with hs hours_fold_invariant [of labels] have "map_of (hoursEntries labels) = Map.empty" by auto
  then show ?thesis by (metis map_of_eq_empty_iff)
qed

lemma dropWhile_fixed: "xs = [] \<or> \<not> P (hd xs) \<Longrightarrow> dropWhile P xs = xs"
  by (cases xs) auto

lemma dropWhile_head: "dropWhile P xs = [] \<or> \<not> P (hd (dropWhile P xs))"
  by (metis hd_dropWhile)

lemma trim_idem: "trim (trim s) = trim s"
proof -
  let ?u = "dropWhile isSpace s"
  let ?r = "dropWhile isSpace (rev ?u)"
  have u: "?u = rev ?r @ rev (takeWhile isSpace (rev ?u))"
    by (metis rev_append rev_rev_ident takeWhile_dropWhile_id)
  have "rev ?r = [] \<or> \<not> isSpace (hd (rev ?r))"
  proof (cases "rev ?r = []")
    case False
    then have "hd (rev ?r) = hd ?u" using u by (metis hd_append2)
    moreover have "?u \<noteq> []"
    proof
      assume e: "?u = []"
      have "?r = []" unfolding e by simp
      with False show False by simp
    qed
    ultimately show ?thesis using dropWhile_head [of isSpace s] by auto
  qed simp
  then have 1: "dropWhile isSpace (rev ?r) = rev ?r" by (rule dropWhile_fixed)
  have 2: "dropWhile isSpace ?r = ?r" by (rule dropWhile_fixed) (rule dropWhile_head)
  show ?thesis by (simp add: trim_def 1 2)
qed

lemma validatedHoursOf_snoc:
  "validatedHoursOf (es @ [(k, t)]) =
     (if k \<in> set validDays \<and> trim t \<noteq> [] then objSet (validatedHoursOf es) k (trim t) else validatedHoursOf es)"
  by (simp add: validatedHoursOf_def)

lemma validatedHoursOf_keys: "fst ` set (validatedHoursOf es) \<subseteq> set validDays \<inter> fst ` set es"
proof (induction es rule: rev_induct)
  case Nil
  then show ?case by (simp add: validatedHoursOf_def)
next
  case (snoc e es)
  obtain k t where e: "e = (k, t)" by (cases e)
  show ?case using snoc unfolding e validatedHoursOf_snoc
    by (auto simp add: dom_objSet)
qed

lemma validatedHoursOf_lookup:
  assumes "distinct (map fst es)"
  shows "map_of (validatedHoursOf es) d =
           (if d \<in> set validDays
            then (case map_of es d of
                    Some t \<Rightarrow> if trim t = [] then None else Some (trim t)
                  | None \<Rightarrow> None)
            else None)"
  using assms
proof (induction es rule: rev_induct)
  case Nil
  then show ?case by (simp add: validatedHoursOf_def)
next
  case (snoc e es)
  obtain k t where e: "e = (k, t)" by (cases e)
  from snoc.prems e have k: "k \<notin> fst ` set es" and dist: "distinct (map fst es)" by auto
  then have none: "map_of es k = None" by (simp add: map_of_eq_None_iff)
  have app: "map_of (es @ [(k, t)]) d = (if d = k then Some t else map_of es d)"
    using none by (auto simp add: map_add_def split: option.splits)
  show ?case
    using snoc.IH [OF dist] none
    by (auto simp add: e validatedHoursOf_snoc map_of_objSet app split: option.splits)
qed

lemma validateBusinessHours_Some:
  "validateBusinessHours hours = Some h \<Longrightarrow> \<exists>es. hours = Some es \<and> h = validatedHoursOf es"
  by (auto simp add: validateBusinessHours_def Let_def split: option.splits if_splits)

lemma find_Some_holds: "find P xs = Some x \<Longrightarrow> P x \<and> x \<in> set xs"
  by (induction xs) (auto split: if_splits)

lemma matchHoursLabel_day:
  assumes "matchHoursLabel l = Some (d, t)"
  shows "toLowerCase d \<in> set (map toLowerCase validDays)"
proof -
  from assms obtain c where c: "find (\<lambda>x. startsWithCI l x) validDays = Some c"
    and d: "d = take (length c) l"
    by (auto simp add: matchHoursLabel_def matchDay_def split: option.splits)
  from find_Some_holds [OF c] have "startsWithCI l c" "c \<in> set validDays" by simp_all
  then show ?thesis unfolding d by (auto simp add: startsWithCI_def)
qed

lemma hoursEntries_keys:
  "(d, t) \<in> set (hoursEntries labels) \<Longrightarrow> toLowerCase d \<in> set (map toLowerCase validDays)"
  by (auto simp add: hoursEntries_def set_map_filter dest: matchHoursLabel_day)

text \<open>
  What the extraction keeps is the first range of each day as the labels write it: looking a
  key up in its result gives what looking it up in the list of all parsed labels, in their
  order, gives. A key is a weekday name in the letter case of its label. After
  \<open>validateBusinessHours\<close> the keys are among the seven weekday names, and a name is mapped to
  the range of the first label that writes the day in exactly this way, unless it is blank.
\<close>

lemma hours_first_occurrence_per_spelling:
  "(\<forall>h. extractHoursData (Some labels) = Some h \<longrightarrow>
        distinct (map fst h) \<and> map_of h = map_of (hoursEntries labels))
   \<and> (\<forall>i d t. i < length labels \<and> matchHoursLabel (labels ! i) = Some (d, t)
         \<and> (\<forall>j < i. \<forall>t'. matchHoursLabel (labels ! j) \<noteq> Some (d, t'))
         \<longrightarrow> (\<exists>h. extractHoursData (Some labels) = Some h \<and> map_of h d = Some (trim t)))
   \<and> (\<forall>h. validateBusinessHours (extractHoursData (Some labels)) = Some h \<longrightarrow>
         set (map fst h) \<subseteq> set validDays
         \<and> (\<forall>d \<in> set validDays.
               map_of h d = (case map_of (hoursEntries labels) d of
                               Some t \<Rightarrow> if t = [] then None else Some t
                             | None \<Rightarrow> None)))
   \<and> (\<forall>h. extractHoursData (Some labels) = Some h \<longrightarrow>
         (\<forall>d \<in> set (map fst h). toLowerCase d \<in> set (map toLowerCase validDays)))"
proof -
  have 1: "\<forall>h. extractHoursData (Some labels) = Some h \<longrightarrow>
        distinct (map fst h) \<and> map_of h = map_of (hoursEntries labels)"
    using extractHoursData_lookup by blast
  have 4: "\<forall>h. extractHoursData (Some labels) = Some h \<longrightarrow>
         (\<forall>d \<in> set (map fst h). toLowerCase d \<in> set (map toLowerCase validDays))"
  proof (intro allI impI ballI)
    fix h d assume h: "extractHoursData (Some labels) = Some h" and d: "d \<in> set (map fst h)"
    from d have "d \<in> dom (map_of h)" by (simp add: dom_map_of_conv_image_fst)
    then have "d \<in> dom (map_of (hoursEntries labels))"
      using extractHoursData_lookup [OF h] by simp
    then obtain t where "(d, t) \<in> set (hoursEntries labels)"
      by (auto dest: map_of_SomeD)
    then show "toLowerCase d \<in> set (map toLowerCase validDays)" by (rule hoursEntries_keys)
  qed
  have first: "map_of (hoursEntries ls) d = Some (trim t)"
    if "i < length ls" "matchHoursLabel (ls ! i) = Some (d, t)"
       "\<forall>j < i. \<forall>t'. matchHoursLabel (ls ! j) \<noteq> Some (d, t')" for ls i d t
    using that
  proof (induction ls arbitrary: i)
    case Nil
    then show ?case by simp
  next
    case (Cons l ls)
    show ?case
    proof (cases i)
      case 0
      then show ?thesis using Cons.prems
        by (simp add: hoursEntries_def List.map_filter_simps)
    next
      case (Suc n)
      have "\<forall>t'. matchHoursLabel l \<noteq> Some (d, t')" using Cons.prems(3) Suc by auto
      then have hd: "\<And>x. map_option (\<lambda>(day, t). (day, trim t)) (matchHoursLabel l) = Some x
                       \<Longrightarrow> fst x \<noteq> d"
        by (cases "matchHoursLabel l") auto
      have "\<forall>j < n. \<forall>t'. matchHoursLabel (ls ! j) \<noteq> Some (d, t')"
      proof (intro allI impI)
        fix j t' assume "j < n"
        then have "Suc j < i" using Suc by simp
        with Cons.prems(3) have "matchHoursLabel ((l # ls) ! Suc j) \<noteq> Some (d, t')" by blast
        then show "matchHoursLabel (ls ! j) \<noteq> Some (d, t')" by simp
      qed
      then have "map_of (hoursEntries ls) d = Some (trim t)"
        using Cons.IH [of n] Cons.prems Suc by auto
      then show ?thesis using hd
        by (auto simp add: hoursEntries_def List.map_filter_simps split: option.splits)
    qed
  qed
  have 2: "\<forall>i d t. i < length labels \<and> matchHoursLabel (labels ! i) = Some (d, t)
         \<and> (\<forall>j < i. \<forall>t'. matchHoursLabel (labels ! j) \<noteq> Some (d, t'))
         \<longrightarrow> (\<exists>h. extractHoursData (Some labels) = Some h \<and> map_of h d = Some (trim t))"
  proof (intro allI impI, elim conjE)
    fix i d t
    assume a: "i < length labels" "matchHoursLabel (labels ! i) = Some (d, t)"
      "\<forall>j < i. \<forall>t'. matchHoursLabel (labels ! j) \<noteq> Some (d, t')"
    have f: "map_of (hoursEntries labels) d = Some (trim t)" by (rule first [OF a])
    then have "hoursEntries labels \<noteq> []" by auto
    then obtain h where h: "extractHoursData (Some labels) = Some h"
      using extractHoursData_None [of labels] by (cases "extractHoursData (Some labels)") auto
    then show "\<exists>h. extractHoursData (Some labels) = Some h \<and> map_of h d = Some (trim t)"
      using f extractHoursData_lookup [OF h] by simp
  qed
  have trimmed: "trim t = t" if "map_of (hoursEntries labels) d = Some t" for d t
  proof -
    from that have "(d, t) \<in> set (hoursEntries labels)" by (rule map_of_SomeD)
    then show ?thesis
      by (auto simp add: hoursEntries_def set_map_filter trim_idem)
  qed
  have 3: "\<forall>h. validateBusinessHours (extractHoursData (Some labels)) = Some h \<longrightarrow>
         set (map fst h) \<subseteq> set validDays
         \<and> (\<forall>d \<in> set validDays.
               map_of h d = (case map_of (hoursEntries labels) d of
                               Some t \<Rightarrow> if t = [] then None else Some t
                             | None \<Rightarrow> None))"
  proof (intro allI impI)
    fix h assume "validateBusinessHours (extractHoursData (Some labels)) = Some h"
    then obtain es where es: "extractHoursData (Some labels) = Some es" "h = validatedHoursOf es"
      using validateBusinessHours_Some by blast
    have keys: "set (map fst h) \<subseteq> set validDays" using es(2) validatedHoursOf_keys [of es] by auto
    have look: "map_of h d = (case map_of (hoursEntries labels) d of
                               Some t \<Rightarrow> if t = [] then None else Some t
                             | None \<Rightarrow> None)" if "d \<in> set validDays" for d
      using validatedHoursOf_lookup [of es d] extractHoursData_lookup [OF es(1)] es(2) that trimmed [of d]
      by (auto split: option.splits)
    show "set (map fst h) \<subseteq> set validDays
         \<and> (\<forall>d \<in> set validDays.
               map_of h d = (case map_of (hoursEntries labels) d of
                               Some t \<Rightarrow> if t = [] then None else Some t
                             | None \<Rightarrow> None))"
      using keys look by blast
  qed
  show ?thesis using 1 2 3 4 by blast
qed

lemma hours_first_occurrence_per_spelling_example:
  "extractHoursData (Some exampleLabels)
     = Some [(''Monday'', ''9 AM to 5 PM''), (''Tuesday'', ''9 AM to 5 PM'')]
   \<and> matchHoursLabel (exampleLabels ! 2) = Some (''Monday'', ''11 AM to 9 PM'')
   \<and> (\<exists>h. extractHoursData (Some exampleLabels) = Some h
          \<and> map_of h ''Monday'' = Some ''9 AM to 5 PM'')
   \<and> (\<exists>h. validateBusinessHours (extractHoursData (Some exampleLabels)) = Some h
          \<and> set (map fst h) \<subseteq> set validDays)"
proof -
  note inst = hours_first_occurrence_per_spelling [of exampleLabels]
  have e: "extractHoursData (Some exampleLabels)
     = Some [(''Monday'', ''9 AM to 5 PM''), (''Tuesday'', ''9 AM to 5 PM'')]"
    by code_simp
  have m0: "matchHoursLabel (exampleLabels ! 0) = Some (''Monday'', ''9 AM to 5 PM'')"
    by code_simp
  have m2: "matchHoursLabel (exampleLabels ! 2) = Some (''Monday'', ''11 AM to 9 PM'')"
    by code_simp
  have t: "trim ''9 AM to 5 PM'' = ''9 AM to 5 PM''" by code_simp
  have len: "0 < length exampleLabels" by (simp add: exampleLabels_def)
  have a: "\<exists>h. extractHoursData (Some exampleLabels) = Some h
          \<and> map_of h ''Monday'' = Some ''9 AM to 5 PM''"
    using inst [THEN conjunct2, THEN conjunct1, rule_format,
                of 0 "''Monday''" "''9 AM to 5 PM''"] len m0 t by simp
  have h: "validateBusinessHours (extractHoursData (Some exampleLabels))
             = Some [(''Monday'', ''9 AM to 5 PM''), (''Tuesday'', ''9 AM to 5 PM'')]"
    by code_simp
  have b: "set (map fst [(''Monday'', ''9 AM to 5 PM''), (''Tuesday'', ''9 AM to 5 PM'')])
             \<subseteq> set validDays"
    using inst [THEN conjunct2, THEN conjunct2, THEN conjunct1, rule_format, OF h] by simp
  show ?thesis using e m2 a h b by blast
qed

text \<open>
  C8 fails on the code. The label pattern ignores the letter case of the day and the set of
  seen days does not: of two labels for Monday, the first writing the day \<open>monday\<close>, the
  extraction keeps both ranges, each under the day as written, and \<open>validateBusinessHours\<close>,
  which knows the capitalised names only, leaves the record with the second range. A panel
  with the first label alone leaves the record without hours.
\<close>

theorem hours_mixed_case_keeps_second_range:
  "matchHoursLabel (mixedCaseLabels ! 0) = Some (''monday'', ''9 AM to 5 PM'')
   \<and> matchHoursLabel (mixedCaseLabels ! 1) = Some (''Monday'', ''10 AM to 6 PM'')
   \<and> extractHoursData (Some mixedCaseLabels)
       = Some [(''monday'', ''9 AM to 5 PM''), (''Monday'', ''10 AM to 6 PM'')]
   \<and> validateBusinessHours (extractHoursData (Some mixedCaseLabels))
       = Some [(''Monday'', ''10 AM to 6 PM'')]
   \<and> validateBusinessData exampleNewURL exampleBlacklist
         (blankRaw\<lparr>rawBusinessHours := extractHoursData (Some mixedCaseLabels)\<rparr>)
       = Inr (blankBusiness\<lparr>businessHours := Some [(''Monday'', ''10 AM to 6 PM'')]\<rparr>)
   \<and> validateBusinessHours (extractHoursData (Some [mixedCaseLabels ! 0])) = None"
  by code_simp

section \<open>Properties of the email enrichment\<close>

lemma findEmailOnWebsite_Some:
  "findEmailOnWebsite bl br w = Some (es, src) \<Longrightarrow> src = ''website'' \<and> es \<noteq> []"
  by (auto simp add: findEmailOnWebsite_def Let_def split: option.splits if_splits)

lemma findEmailsTask_cases:
  "findEmailsTask bl br b =
     (if \<not> truthyStr (website b) then b
      else (case findEmailOnWebsite bl br (website b) of
              Some (es, src) \<Rightarrow> b\<lparr>emails := es, emailSource := ''website''\<rparr>
            | None \<Rightarrow> b\<lparr>emails := [], emailSource := ''not_found''\<rparr>))"
  by (auto simp add: findEmailsTask_def split: option.splits dest: findEmailOnWebsite_Some)

text \<open>
  The claim that a record with \<open>emailSource\<close> \<open>google_profile\<close> keeps its email and source
  through the enrichment fails for a record with a website: the crawl's outcome replaces them.
\<close>

theorem batchFindEmails_profile_priority_counterexample:
  "emailSource profileBusiness = ''google_profile''
   \<and> emails profileBusiness = [''owner@acme.io'']
   \<and> website profileBusiness = Some ''https://acme.io/''
   \<and> batchFindEmails exampleBlacklist deadBrowser [profileBusiness]
       = [profileBusiness\<lparr>emails := [], emailSource := ''not_found''\<rparr>]
   \<and> batchFindEmails exampleBlacklist acmeBrowser [profileBusiness]
       = [profileBusiness\<lparr>emails := [''sales@acme.io'', ''joe@acme.io''],
                           emailSource := ''website''\<rparr>]"
proof -
  have 1: "findEmailOnWebsite exampleBlacklist deadBrowser (Some ''https://acme.io/'') = None"
    by (simp add: findEmailOnWebsite_def deadBrowser_def)
  have 2: "findEmailOnWebsite exampleBlacklist acmeBrowser (Some ''https://acme.io/'')
             = Some ([''sales@acme.io'', ''joe@acme.io''], ''website'')"
    by code_simp
  show ?thesis
    using 1 2
    by (simp add: batchFindEmails_def findEmailsTask_def profileBusiness_def blankBusiness_def)
qed

text \<open>
  C2, amended. The enrichment leaves a record without a website as it is, so an email and
  source from the profile stay there. For a record with a website it replaces \<open>emails\<close> and
  \<open>emailSource\<close> by the crawl's outcome, the addresses found and \<open>website\<close>, or the empty
  list and \<open>not_found\<close>, whatever the record carried; no other field changes.
\<close>

theorem batchFindEmails_overwrites_when_website:
  "length (batchFindEmails bl br bs) = length bs
   \<and> (\<forall>i < length bs.
         (\<not> truthyStr (website (bs ! i)) \<longrightarrow> batchFindEmails bl br bs ! i = bs ! i)
         \<and> (truthyStr (website (bs ! i)) \<longrightarrow>
              (case findEmailOnWebsite bl br (website (bs ! i)) of
                 Some (es, src) \<Rightarrow>
                   es \<noteq> [] \<and> batchFindEmails bl br bs ! i
                                = (bs ! i)\<lparr>emails := es, emailSource := ''website''\<rparr>
               | None \<Rightarrow>
                   batchFindEmails bl br bs ! i
                     = (bs ! i)\<lparr>emails := [], emailSource := ''not_found''\<rparr>)))"
  by (auto simp add: batchFindEmails_def findEmailsTask_cases split: option.splits
           dest: findEmailOnWebsite_Some)

theorem batchFindEmails_overwrites_when_website_witness:
  "batchFindEmails exampleBlacklist deadBrowser
     [profileBusiness, profileBusiness\<lparr>website := None\<rparr>]
   = [profileBusiness\<lparr>emails := [], emailSource := ''not_found''\<rparr>,
      profileBusiness\<lparr>website := None\<rparr>]"
proof -
  let ?bs = "[profileBusiness, profileBusiness\<lparr>website := None\<rparr>]"
  note inst = batchFindEmails_overwrites_when_website [of exampleBlacklist deadBrowser ?bs]
  have f: "findEmailOnWebsite exampleBlacklist deadBrowser (website profileBusiness) = None"
    by (simp add: findEmailOnWebsite_def deadBrowser_def profileBusiness_def)
  have w: "truthyStr (website profileBusiness)"
    by (simp add: profileBusiness_def)
  have len: "length (batchFindEmails exampleBlacklist deadBrowser ?bs) = 2"
    using inst by simp
  have 0: "batchFindEmails exampleBlacklist deadBrowser ?bs ! 0
             = profileBusiness\<lparr>emails := [], emailSource := ''not_found''\<rparr>"
    using inst [THEN conjunct2, rule_format, of 0] f w by simp
  have 1: "batchFindEmails exampleBlacklist deadBrowser ?bs ! 1
             = profileBusiness\<lparr>website := None\<rparr>"
    using inst [THEN conjunct2, rule_format, of 1] by simp
  show ?thesis
    using len 0 1 by (auto simp add: list_eq_iff_nth_eq less_Suc_eq numeral_2_eq_2)
qed

section \<open>Properties of the listing walk\<close>


lemma walkLoop_step:
  assumes "length (businesses st) < maxResults cfg" "walkIteration cfg (feed k) st = (st', left)"
  shows "walkLoop cfg feed k st =
           (if left then Some (businesses st') else walkLoop cfg feed (Suc k) st')"
  using assms by (subst walkLoop.simps) simp












lemma visitCard_yields:
  assumes "cardYields cfg c u v" "u \<notin> set seen"
  shows "visitCard cfg (bs, seen) c = (bs @ [v], seen @ [u])"
  using assms
  by (auto simp add: cardYields_def visitCard_def extractBusinessData_def setAdd_def Let_def
           split: option.splits)

lemma visitCard_fails:
  assumes "cardFails c u" "u \<notin> set seen"
  shows "visitCard cfg (bs, seen) c = (bs, seen @ [u])"
  using assms
  by (auto simp add: cardFails_def visitCard_def extractBusinessData_def setAdd_def Let_def
           split: option.splits)

text \<open>
  C7. With \<open>maxResults = 3\<close> and a first enumeration of five cards with distinct \<open>href\<close>s, of which
  the second and the fourth fail in the detail view and the others are validated and pass
  the filter, the walk returns the records of the first, third and fifth card, in this order.
\<close>

theorem walk_five_cards_cap_three:
  assumes "maxResults cfg = 3"
    and "feed 0 = [c1, c2, c3, c4, c5]"
    and "distinct [u1, u2, u3, u4, u5]"
    and "cardYields cfg c1 u1 v1" "cardFails c2 u2" "cardYields cfg c3 u3 v3"
      "cardFails c4 u4" "cardYields cfg c5 u5 v5"
  shows "extractBusinessListings cfg feed = Some [v1, v3, v5]"
proof -
  have 1: "visitCard cfg ([], []) c1 = ([v1], [u1])"
    using visitCard_yields [OF assms(4), of "[]" "[]"] by simp
  have 2: "visitCard cfg ([v1], [u1]) c2 = ([v1], [u1, u2])"
    using visitCard_fails [OF assms(5), of "[u1]" cfg "[v1]"] assms(3) by auto
  have 3: "visitCard cfg ([v1], [u1, u2]) c3 = ([v1, v3], [u1, u2, u3])"
    using visitCard_yields [OF assms(6), of "[u1, u2]" "[v1]"] assms(3) by auto
  have 4: "visitCard cfg ([v1, v3], [u1, u2, u3]) c4 = ([v1, v3], [u1, u2, u3, u4])"
    using visitCard_fails [OF assms(7), of "[u1, u2, u3]" cfg "[v1, v3]"] assms(3) by auto
  have 5: "visitCard cfg ([v1, v3], [u1, u2, u3, u4]) c5 = ([v1, v3, v5], [u1, u2, u3, u4, u5])"
    using visitCard_yields [OF assms(8), of "[u1, u2, u3, u4]" "[v1, v3]"] assms(3) by auto
  have cards: "visitCards cfg [c1, c2, c3, c4, c5] ([], []) = ([v1, v3, v5], [u1, u2, u3, u4, u5])"
    using assms(1) by (simp add: 1 2 3 4 5)
  have "walkIteration cfg (feed 0) initialState
          = (initialState\<lparr>businesses := [v1, v3, v5], seenUrls := [u1, u2, u3, u4, u5],
                           noNewResultsCount := 0, previousCount := 5\<rparr>, True)"
    using cards assms(1,2) by (simp add: walkIteration_def initialState_def)
  then show ?thesis
    unfolding extractBusinessListings_def
    using walkLoop_step [where feed = feed and k = 0 and cfg = cfg and st = initialState] assms(1)
    by (simp add: initialState_def)
qed

theorem walk_five_cards_cap_three_witness:
  "extractBusinessListings exampleConfig (\<lambda>k. fiveCards)
     = Some [shopRecord ''1'' ''Shop 1'', shopRecord ''3'' ''Shop 3'', shopRecord ''5'' ''Shop 5'']"
proof -
  have m: "maxResults exampleConfig = 3" by (simp add: exampleConfig_def)
  have f: "(\<lambda>k. fiveCards) (0::nat)
             = [shopCard ''1'' ''Shop 1'', noNameCard ''2'', shopCard ''3'' ''Shop 3'',
                noNameCard ''4'', shopCard ''5'' ''Shop 5'']"
    by (simp add: fiveCards_def)
  have d: "distinct [''/place/1'', ''/place/2'', ''/place/3'', ''/place/4'', ''/place/5'']"
    by simp
  have y1: "cardYields exampleConfig (shopCard ''1'' ''Shop 1'') ''/place/1''
              (shopRecord ''1'' ''Shop 1'')"
    by code_simp
  have y3: "cardYields exampleConfig (shopCard ''3'' ''Shop 3'') ''/place/3''
              (shopRecord ''3'' ''Shop 3'')"
    by code_simp
  have y5: "cardYields exampleConfig (shopCard ''5'' ''Shop 5'') ''/place/5''
              (shopRecord ''5'' ''Shop 5'')"
    by code_simp
  have f2: "cardFails (noNameCard ''2'') ''/place/2''" by code_simp
  have f4: "cardFails (noNameCard ''4'') ''/place/4''" by code_simp
  show ?thesis
    by (rule walk_five_cards_cap_three [OF m f d y1 f2 y3 f4 y5])
qed

text \<open>
  C1 fails on the code. The Validator returns a record for a raw record whose name is one
  space, with \<open>businessName\<close> \<open>null\<close>; the walk keeps it, so its result holds a record without a
  name.
\<close>

theorem validator_keeps_nameless_record:
  "validateBusinessData exampleNewURL exampleBlacklist (blankRaw\<lparr>rawBusinessName := JStr '' ''\<rparr>)
     = Inr (blankBusiness\<lparr>businessName := None\<rparr>)
   \<and> validateBusinessData exampleNewURL exampleBlacklist (blankRaw\<lparr>rawBusinessName := JNull\<rparr>)
     = Inr (blankBusiness\<lparr>businessName := None\<rparr>)
   \<and> validateBusinessData exampleNewURL exampleBlacklist (blankRaw\<lparr>rawBusinessName := JNum 7\<rparr>)
     = Inr (blankBusiness\<lparr>businessName := None\<rparr>)
   \<and> extractBusinessListings exampleConfig (\<lambda>k. [blankNameCard])
     = Some [(shopRecord ''1'' [])\<lparr>businessName := None\<rparr>]"
  by code_simp

section \<open>Properties of the Validator\<close>

lemma isSpace_space: "isSpace CHR '' ''"
  by (simp add: isSpace_def)

lemma collapseSpaces_Nil_iff: "collapseSpaces s = [] \<longleftrightarrow> s = []"
  by (cases s) auto

lemma hd_collapseSpaces: "s \<noteq> [] \<Longrightarrow> \<not> isSpace (hd s) \<Longrightarrow> hd (collapseSpaces s) = hd s"
  by (cases s) auto

lemma dropWhile_collapseSpaces:
  "s = [] \<or> \<not> isSpace (hd s) \<Longrightarrow> dropWhile isSpace (collapseSpaces s) = collapseSpaces s"
  by (cases s) auto

lemma collapseSpaces_idem: "collapseSpaces (collapseSpaces s) = collapseSpaces s"
proof (induction s rule: collapseSpaces.induct)
  case 1
  then show ?case by simp
next
  case (2 c cs)
  show ?case
  proof (cases "isSpace c")
    case True
    have "dropWhile isSpace (collapseSpaces (dropWhile isSpace cs))
            = collapseSpaces (dropWhile isSpace cs)"
      by (rule dropWhile_collapseSpaces) (use dropWhile_head [of isSpace cs] in auto)
    then show ?thesis using True 2 by (simp add: isSpace_space)
  next
    case False
    then show ?thesis using 2 by simp
  qed
qed

lemma last_collapseSpaces:
  "s \<noteq> [] \<Longrightarrow> isSpace (last (collapseSpaces s)) \<longleftrightarrow> isSpace (last s)"
proof (induction s rule: collapseSpaces.induct)
  case 1
  then show ?case by simp
next
  case (2 c cs)
  show ?case
  proof (cases "isSpace c")
    case True
    show ?thesis
    proof (cases "dropWhile isSpace cs = []")
      case True
      then have "\<forall>x \<in> set cs. isSpace x" by simp
      then have l: "isSpace (last (c # cs))" using \<open>isSpace c\<close> by (cases cs) auto
      have e: "collapseSpaces (c # cs) = [CHR '' '']"
        using \<open>isSpace c\<close> by (simp only: collapseSpaces.simps True if_True)
      show ?thesis unfolding e using l by (simp add: isSpace_space)
    next
      case False
      then have "cs \<noteq> []" by auto
      have "last (dropWhile isSpace cs) = last cs"
        using False by (metis last_appendR takeWhile_dropWhile_id)
      then show ?thesis using 2(1) [OF True False] False True \<open>cs \<noteq> []\<close>
        by (simp add: collapseSpaces_Nil_iff isSpace_space)
    qed
  next
    case False
    then show ?thesis using 2 by (cases cs) (auto simp add: collapseSpaces_Nil_iff)
  qed
qed

lemma trim_fixed_iff: "trim s = s \<longleftrightarrow> s = [] \<or> (\<not> isSpace (hd s) \<and> \<not> isSpace (last s))"
proof (cases "s = []")
  case True
  then show ?thesis by (simp add: trim_def)
next
  case False
  show ?thesis
  proof
    assume t: "trim s = s"
    have 1: "\<not> isSpace (hd s)"
    proof
      assume "isSpace (hd s)"
      then have "length (dropWhile isSpace s) < length s"
        using False by (cases s) (auto simp add: less_Suc_eq_le length_dropWhile_le)
      moreover have "length (trim s) \<le> length (dropWhile isSpace s)"
        by (simp add: trim_def) (metis length_dropWhile_le length_rev)
      ultimately show False using t by simp
    qed
    then have d: "dropWhile isSpace s = s" by (cases s) auto
    have 2: "\<not> isSpace (last s)"
    proof
      assume "isSpace (last s)"
      then have "isSpace (hd (rev s))" using False by (simp add: hd_rev)
      then have "length (dropWhile isSpace (rev s)) < length (rev s)"
        using False by (cases "rev s") (auto simp add: less_Suc_eq_le length_dropWhile_le)
      then show False using t d by (simp add: trim_def) (metis length_rev less_irrefl)
    qed
    show "s = [] \<or> (\<not> isSpace (hd s) \<and> \<not> isSpace (last s))" using 1 2 by simp
  next
    assume "s = [] \<or> (\<not> isSpace (hd s) \<and> \<not> isSpace (last s))"
    then have h: "\<not> isSpace (hd s)" "\<not> isSpace (last s)" using False by auto
    have d: "dropWhile isSpace s = s" using h(1) by (cases s) auto
    have "\<not> isSpace (hd (rev s))" using h(2) False by (simp add: hd_rev)
    then have "dropWhile isSpace (rev s) = rev s" by (cases "rev s") auto
    then show "trim s = s" using d by (simp add: trim_def)
  qed
qed

lemma trim_collapseSpaces_trim: "trim (collapseSpaces (trim s)) = collapseSpaces (trim s)"
proof (cases "trim s = []")
  case True
  show ?thesis unfolding True by (simp add: trim_def)
next
  case False
  have "trim (trim s) = trim s" by (rule trim_idem)
  then have h: "\<not> isSpace (hd (trim s))" "\<not> isSpace (last (trim s))"
    using False trim_fixed_iff [of "trim s"] by auto
  have "\<not> isSpace (hd (collapseSpaces (trim s)))"
    using hd_collapseSpaces [OF False h(1)] h(1) by simp
  moreover have "\<not> isSpace (last (collapseSpaces (trim s)))"
    using last_collapseSpaces [OF False] h(2) by simp
  ultimately show ?thesis using trim_fixed_iff by blast
qed

lemma cleanString_idem: "cleanString (jsOfStr (cleanString x)) = cleanString x"
proof (cases "cleanString x")
  case None
  then show ?thesis by (simp add: cleanString_def)
next
  case (Some r)
  then obtain s where x: "x = JStr s" "s \<noteq> []" "r = collapseSpaces (trim s)" "r \<noteq> []"
    by (auto simp add: cleanString_def orNull_def split: jsval.splits if_splits)
  show ?thesis
    using Some x by (simp add: cleanString_def orNull_def trim_collapseSpaces_trim collapseSpaces_idem)
qed

lemma cleanPhone_idem: "cleanPhone (cleanPhone p) = cleanPhone p"
proof (cases "cleanPhone p")
  case None
  then show ?thesis by (simp add: cleanPhone_def)
next
  case (Some r)
  then obtain s where p: "p = Some s" "s \<noteq> []" by (auto simp add: cleanPhone_def split: option.splits if_splits)
  let ?c = "filter (\<lambda>c. isDigit c \<or> c = CHR ''+'') s"
  have r: "r = (if \<not> startsWith ?c ''+'' \<and> length ?c = 10 then ''+1'' @ ?c else ?c)" "r \<noteq> []"
    using Some p by (auto simp add: cleanPhone_def Let_def orNull_def split: if_splits)
  have f: "filter (\<lambda>c. isDigit c \<or> c = CHR ''+'') r = r"
    using r(1) by (auto simp add: isDigit_def)
  have c: "\<not> (\<not> startsWith r ''+'' \<and> length r = 10)"
    using r(1) by (auto split: if_splits)
  show ?thesis using Some r(2) f c
    by (simp add: cleanPhone_def Let_def orNull_def)
qed

lemma isSpace_toLowerChar: "isSpace (toLowerChar c) \<longleftrightarrow> isSpace c"
  by (auto simp add: isSpace_def toLowerChar_def Let_def)

lemma dropWhile_isSpace_lower:
  "dropWhile isSpace (map toLowerChar xs) = map toLowerChar (dropWhile isSpace xs)"
  by (induction xs) (simp_all add: isSpace_toLowerChar)

lemma trim_toLowerCase: "trim (toLowerCase s) = toLowerCase (trim s)"
  by (simp add: trim_def toLowerCase_def dropWhile_isSpace_lower rev_map)

lemma validateEmail_idem:
  assumes "validateEmail bl e = Some t"
  shows "validateEmail bl t = Some t"
proof -
  note v = validateEmail_Some [OF assms]
  have "t \<noteq> []" using v(4) by (auto simp add: emailRegexTest_def Let_def)
  moreover have "toLowerCase (trim t) = t"
    unfolding v(1) by (simp add: trim_toLowerCase [symmetric] trim_idem toLowerCase_idem)
  ultimately show ?thesis using v(2,3,4) by (simp add: validateEmail_def)
qed

lemma map_filter_idem:
  assumes "\<And>x y. f x = Some y \<Longrightarrow> f y = Some y"
  shows "List.map_filter f (List.map_filter f xs) = List.map_filter f xs"
  by (induction xs) (auto simp add: List.map_filter_simps assms split: option.splits)

lemma objSet_fresh: "k \<notin> fst ` set al \<Longrightarrow> objSet al k v = al @ [(k, v)]"
  by (induction al) auto

lemma set_objSet: "set (objSet al k v) \<subseteq> insert (k, v) (set al)"
  by (induction al) (auto split: if_splits)

lemma validatedHoursOf_props:
  "distinct (map fst (validatedHoursOf es))
   \<and> (\<forall>(d, t) \<in> set (validatedHoursOf es). d \<in> set validDays \<and> t \<noteq> [] \<and> trim t = t)"
proof (induction es rule: rev_induct)
  case Nil
  then show ?case by (simp add: validatedHoursOf_def)
next
  case (snoc e es)
  obtain k t where e: "e = (k, t)" by (cases e)
  show ?case using snoc set_objSet [of "validatedHoursOf es" k "trim t"]
    unfolding e validatedHoursOf_snoc
    by (auto simp add: keys_objSet trim_idem)
qed

lemma validatedHoursOf_fixed:
  assumes "distinct (map fst (acc @ xs))"
    "\<forall>(d, t) \<in> set xs. d \<in> set validDays \<and> t \<noteq> [] \<and> trim t = t"
  shows "foldl (\<lambda>acc (day, time).
              if day \<in> set validDays \<and> trim time \<noteq> []
              then objSet acc day (trim time) else acc) acc xs = acc @ xs"
  using assms
proof (induction xs arbitrary: acc)
  case Nil
  then show ?case by simp
next
  case (Cons x xs)
  obtain k t where x: "x = (k, t)" by (cases x)
  have "objSet acc k t = acc @ [(k, t)]"
    using Cons.prems(1) x by (intro objSet_fresh) auto
  then show ?case using Cons.IH [of "acc @ [(k, t)]"] Cons.prems x by auto
qed

lemma validateBusinessHours_idem:
  "validateBusinessHours (validateBusinessHours h) = validateBusinessHours h"
proof (cases "validateBusinessHours h")
  case None
  then show ?thesis by (simp add: validateBusinessHours_def)
next
  case (Some h')
  then obtain es where "h = Some es" "h' = validatedHoursOf es"
    using validateBusinessHours_Some by blast
  then have "validatedHoursOf h' = h'"
    using validatedHoursOf_fixed [of "[]" h'] validatedHoursOf_props [of es]
    by (simp add: validatedHoursOf_def)
  moreover have "h' \<noteq> []"
    using Some by (auto simp add: validateBusinessHours_def Let_def split: option.splits if_splits)
  ultimately show ?thesis using Some by (simp add: validateBusinessHours_def)
qed

lemma validateUrl_idem:
  assumes "\<forall>u p. nu u = Some p \<longrightarrow> href p \<noteq> [] \<and> nu (href p) = Some p"
  shows "validateUrl nu (validateUrl nu w) = validateUrl nu w"
  using assms
  by (auto simp add: validateUrl_def split: option.splits)

lemma orNullOpt_idem: "orNullOpt (orNullOpt x) = orNullOpt x"
  by (simp add: orNullOpt_def)

lemma parseRating_number:
  "parseRating (case r of None \<Rightarrow> JNull | Some x \<Rightarrow> JNum x) =
     (if r = None \<or> r = Some 0 then Inr None else Inl TypeError)"
  by (auto simp add: parseRating_def split: option.splits)

lemma parseReviewCount_number:
  "parseReviewCount (JNum (of_nat n)) = (if n = 0 then Inr 0 else Inl TypeError)"
  by (simp add: parseReviewCount_def)

lemma validate_fields:
  assumes "validateBusinessData nu bl raw = Inr v"
  shows "businessName v = cleanString (rawBusinessName raw)"
    and "address v = cleanString (jsOfStr (rawAddress raw))"
    and "phone v = cleanPhone (rawPhone raw)"
    and "website v = validateUrl nu (rawWebsite raw)"
    and "parseRating (rawRating raw) = Inr (rating v)"
    and "parseReviewCount (rawReviewCount raw) = Inr (reviewCount v)"
    and "category v = cleanString (jsOfStr (rawCategory raw))"
    and "priceLevel v = orNullOpt (rawPriceLevel raw)"
    and "priceRange v = orNullOpt (rawPriceRange raw)"
    and "googleMapsUrl v = validateUrl nu (rawGoogleMapsUrl raw)"
    and "businessHours v = validateBusinessHours (rawBusinessHours raw)"
    and "emailSource v = (case orNullOpt (rawEmailSource raw) of
                            Some src \<Rightarrow> src | None \<Rightarrow> ''not_found'')"
  using assms
  by (auto simp add: validateBusinessData_def Let_def split: prod.splits sum.splits)

lemma validate_throws:
  "validateBusinessData nu bl raw = Inl TypeError \<longleftrightarrow>
     parseRating (rawRating raw) = Inl TypeError
     \<or> parseReviewCount (rawReviewCount raw) = Inl TypeError"
  by (auto simp add: validateBusinessData_def Let_def split: prod.splits sum.splits)
     (metis error.exhaust)+

text \<open>
  The claim that re-validation never fails and changes no field is false: a record with a
  rating is re-validated into a \<open>TypeError\<close>, since the rating is a number by then; the
  country of a blank address and the coordinates of a URL that is not absolute are lost.
\<close>

theorem revalidation_counterexample:
  "validateBusinessData exampleNewURL exampleBlacklist (blankRaw\<lparr>rawRating := JStr ''4.5 stars''\<rparr>)
     = Inr (blankBusiness\<lparr>rating := Some (9 / 2)\<rparr>)
   \<and> validateBusinessData exampleNewURL exampleBlacklist
       (asRawData (blankBusiness\<lparr>rating := Some (9 / 2)\<rparr>)) = Inl TypeError
   \<and> validateBusinessData exampleNewURL exampleBlacklist (blankRaw\<lparr>rawAddress := Some '' ''\<rparr>)
     = Inr (blankBusiness\<lparr>country := Some ''United States''\<rparr>)
   \<and> validateBusinessData exampleNewURL exampleBlacklist
       (asRawData (blankBusiness\<lparr>country := Some ''United States''\<rparr>)) = Inr blankBusiness
   \<and> validateBusinessData exampleNewURL exampleBlacklist
       (blankRaw\<lparr>rawGoogleMapsUrl := Some ''maps/@40.5,-73.5''\<rparr>)
     = Inr (blankBusiness\<lparr>latitude := Some (81 / 2), longitude := Some (- (147 / 2))\<rparr>)
   \<and> validateBusinessData exampleNewURL exampleBlacklist
       (asRawData (blankBusiness\<lparr>latitude := Some (81 / 2), longitude := Some (- (147 / 2))\<rparr>))
     = Inr blankBusiness"
  by code_simp

text \<open>
  C3, amended. Re-validating an output of the Validator throws a \<open>TypeError\<close> exactly when
  the output's rating is a number other than 0 or its review count is not 0. When it
  returns, the result has the output's name, address, phone, category, price level, price
  range, hours, emails, email source and review count, and a \<open>null\<close> rating; it has the
  output's website and maps URL when the URL parser maps the \<open>href\<close> it produced to the same
  parsed URL.
\<close>

theorem revalidation_throws_or_keeps_normalised_fields:
  assumes "validateBusinessData nu bl raw = Inr out"
  shows "(validateBusinessData nu bl (asRawData out) = Inl TypeError \<longleftrightarrow>
            (rating out \<noteq> None \<and> rating out \<noteq> Some 0) \<or> reviewCount out \<noteq> 0)
         \<and> (\<forall>out'. validateBusinessData nu bl (asRawData out) = Inr out' \<longrightarrow>
               businessName out' = businessName out \<and> address out' = address out
               \<and> phone out' = phone out \<and> category out' = category out
               \<and> priceLevel out' = priceLevel out \<and> priceRange out' = priceRange out
               \<and> businessHours out' = businessHours out \<and> emails out' = emails out
               \<and> emailSource out' = emailSource out \<and> reviewCount out' = reviewCount out
               \<and> rating out' = None
               \<and> ((\<forall>u p. nu u = Some p \<longrightarrow> href p \<noteq> [] \<and> nu (href p) = Some p) \<longrightarrow>
                    website out' = website out \<and> googleMapsUrl out' = googleMapsUrl out))"
proof -
  note f = validate_fields [OF assms]
  have 1: "validateBusinessData nu bl (asRawData out) = Inl TypeError \<longleftrightarrow>
            (rating out \<noteq> None \<and> rating out \<noteq> Some 0) \<or> reviewCount out \<noteq> 0"
    unfolding validate_throws
    by (auto simp add: asRawData_def parseRating_number parseReviewCount_number)
  have 2: "businessName out' = businessName out \<and> address out' = address out
               \<and> phone out' = phone out \<and> category out' = category out
               \<and> priceLevel out' = priceLevel out \<and> priceRange out' = priceRange out
               \<and> businessHours out' = businessHours out \<and> emails out' = emails out
               \<and> emailSource out' = emailSource out \<and> reviewCount out' = reviewCount out
               \<and> rating out' = None
               \<and> ((\<forall>u p. nu u = Some p \<longrightarrow> href p \<noteq> [] \<and> nu (href p) = Some p) \<longrightarrow>
                    website out' = website out \<and> googleMapsUrl out' = googleMapsUrl out)"
    if o: "validateBusinessData nu bl (asRawData out) = Inr out'" for out'
  proof -
    note g = validate_fields [OF o]
    have name: "businessName out' = businessName out"
      unfolding g(1) by (simp add: asRawData_def f(1) cleanString_idem)
    have addr: "address out' = address out"
      unfolding g(2) by (simp add: asRawData_def f(2) cleanString_idem)
    have ph: "phone out' = phone out"
      unfolding g(3) by (simp add: asRawData_def f(3) cleanPhone_idem)
    have cat: "category out' = category out"
      unfolding g(7) by (simp add: asRawData_def f(7) cleanString_idem)
    have pl: "priceLevel out' = priceLevel out"
      unfolding g(8) by (simp add: asRawData_def f(8) orNullOpt_idem)
    have pr: "priceRange out' = priceRange out"
      unfolding g(9) by (simp add: asRawData_def f(9) orNullOpt_idem)
    have hrs: "businessHours out' = businessHours out"
      unfolding g(11) by (simp add: asRawData_def f(11) validateBusinessHours_idem)
    have em: "emails out' = emails out"
      unfolding validate_emails [OF o] validate_emails [OF assms]
      by (simp add: asRawData_def validate_emails [OF assms] map_filter_idem validateEmail_idem)
    have "emailSource out \<noteq> []"
      unfolding f(12) by (auto simp add: orNullOpt_def split: option.splits if_splits)
    then have src: "emailSource out' = emailSource out"
      unfolding g(12) by (simp add: asRawData_def orNullOpt_def)
    have "validateBusinessData nu bl (asRawData out) \<noteq> Inl TypeError" using o by simp
    then have ok: "rating out = None \<or> rating out = Some 0" "reviewCount out = 0"
      using 1 by auto
    have rc: "reviewCount out' = reviewCount out"
      using g(6) ok(2) by (simp add: asRawData_def parseReviewCount_def)
    have rt: "rating out' = None"
      using g(5) ok(1) by (auto simp add: asRawData_def parseRating_number)
    have urls: "website out' = website out \<and> googleMapsUrl out' = googleMapsUrl out"
      if "\<forall>u p. nu u = Some p \<longrightarrow> href p \<noteq> [] \<and> nu (href p) = Some p"
      unfolding g(4) g(10)
      by (simp add: asRawData_def f(4) f(10) validateUrl_idem [OF that])
    show ?thesis using name addr ph cat pl pr hrs em src rc rt urls by blast
  qed
  show ?thesis using 1 2 by blast
qed

lemma exampleNewURL_roundtrip:
  "\<forall>u p. exampleNewURL u = Some p \<longrightarrow> href p \<noteq> [] \<and> exampleNewURL (href p) = Some p"
  by (auto simp add: exampleNewURL_def split: if_splits)

theorem revalidation_throws_or_keeps_normalised_fields_witness:
  "validateBusinessData exampleNewURL exampleBlacklist richRaw = Inr richOut
   \<and> (\<exists>out'. validateBusinessData exampleNewURL exampleBlacklist (asRawData richOut) = Inr out'
          \<and> businessName out' = Some ''Acme Coffee'' \<and> phone out' = Some ''+12125551234''
          \<and> emails out' = [''owner@acme.io''] \<and> emailSource out' = ''google_profile''
          \<and> businessHours out' = Some [(''Monday'', ''9 AM to 5 PM'')]
          \<and> website out' = Some ''https://acme.io/'' \<and> rating out' = None)"
proof -
  have v: "validateBusinessData exampleNewURL exampleBlacklist richRaw = Inr richOut"
    by code_simp
  note inst = revalidation_throws_or_keeps_normalised_fields [OF v]
  have "rating richOut = None" "reviewCount richOut = 0"
    by (simp_all add: richOut_def blankBusiness_def)
  then have "validateBusinessData exampleNewURL exampleBlacklist (asRawData richOut) \<noteq> Inl TypeError"
    using inst [THEN conjunct1] by simp
  then obtain out' where
    o: "validateBusinessData exampleNewURL exampleBlacklist (asRawData richOut) = Inr out'"
    by (cases "validateBusinessData exampleNewURL exampleBlacklist (asRawData richOut)")
       (metis error.exhaust, blast)
  have "businessName out' = businessName richOut \<and> address out' = address richOut
               \<and> phone out' = phone richOut \<and> category out' = category richOut
               \<and> priceLevel out' = priceLevel richOut \<and> priceRange out' = priceRange richOut
               \<and> businessHours out' = businessHours richOut \<and> emails out' = emails richOut
               \<and> emailSource out' = emailSource richOut \<and> reviewCount out' = reviewCount richOut
               \<and> rating out' = None
               \<and> ((\<forall>u p. exampleNewURL u = Some p \<longrightarrow> href p \<noteq> [] \<and> exampleNewURL (href p) = Some p) \<longrightarrow>
                    website out' = website richOut \<and> googleMapsUrl out' = googleMapsUrl richOut)"
    by (rule inst [THEN conjunct2, rule_format, OF o])
  then have "businessName out' = Some ''Acme Coffee'' \<and> phone out' = Some ''+12125551234''
          \<and> emails out' = [''owner@acme.io''] \<and> emailSource out' = ''google_profile''
          \<and> businessHours out' = Some [(''Monday'', ''9 AM to 5 PM'')]
          \<and> website out' = Some ''https://acme.io/'' \<and> rating out' = None"
    using exampleNewURL_roundtrip by (simp add: richOut_def blankBusiness_def)
  then show ?thesis using v o by blast
qed

end
